theory Spec2Isabelle
  imports Complex_Main
begin

section \<open>Python values\<close>

text \<open>
  Python floats are modelled as exact reals: rounding, infinities and NaN are outside
  the model.  A Python \<open>dict\<close> is an association list in insertion order; lookups go
  through \<open>map_of\<close>, iteration runs over the list.  The keys of a Python dictionary are
  distinct; a list with a repeated key stands for no dictionary.
\<close>

type_synonym ('k, 'v) dict = "('k \<times> 'v) list"

datatype error =
    AssertionError
  | ZeroDivisionError
  | KeyError
  | IndexError
  | ValueError
  | RecursionError
  | RecallError
  | CollaboratorError string

text \<open>\<open>d.get(k, default)\<close>\<close>

definition dict_get :: "('k, 'v) dict \<Rightarrow> 'k \<Rightarrow> 'v \<Rightarrow> 'v" where
  "dict_get d k dflt = (case map_of d k of Some v \<Rightarrow> v | None \<Rightarrow> dflt)"

text \<open>\<open>d.keys()\<close> and \<open>d.values()\<close>\<close>

definition keys :: "('k, 'v) dict \<Rightarrow> 'k list" where
  "keys d = map fst d"

definition dict_values :: "('k, 'v) dict \<Rightarrow> 'v list" where
  "dict_values d = map snd d"

section \<open>Posterior engine (method.py)\<close>

text \<open>
  \<open>calculate_posterior\<close>, lines 151 to 183.  The three dictionary comprehensions are
  \<open>map\<close> and \<open>filter\<close> over the items; the warning loop only logs.  The last
  comprehension divides every surviving value by \<open>marginal\<close>: Python raises
  \<open>ZeroDivisionError\<close> at the first item when \<open>marginal\<close> is zero, and divides
  nothing when the dictionary is empty.
\<close>

definition calculate_posterior ::
  "(string, real) dict \<Rightarrow> (string, real) dict \<Rightarrow> real \<Rightarrow> real \<Rightarrow> real
     \<Rightarrow> error + ((string, real) dict \<times> real)" where
  "calculate_posterior prior likelihoods min_probability uniform_likelihood estimator_confidence =
     (let all_posteriors =
            map (\<lambda>(h, p).
                   (h, p * (dict_get likelihoods h uniform_likelihood * estimator_confidence
                            + uniform_likelihood * (1 - estimator_confidence))))
                prior;
          filtered = filter (\<lambda>(h, p). p \<ge> min_probability) all_posteriors;
          unnormalised = (if filtered = [] then all_posteriors else filtered);
          marginal = sum_list (dict_values unnormalised)
      in if unnormalised \<noteq> [] \<and> marginal = 0 then Inl ZeroDivisionError
         else Inr (map (\<lambda>(h, p). (h, p / marginal)) unnormalised, marginal))"

text \<open>The blended likelihood of the specification, and the unnormalised posteriors.\<close>

definition blended :: "(string, real) dict \<Rightarrow> real \<Rightarrow> real \<Rightarrow> string \<Rightarrow> real" where
  "blended likelihoods uniform_likelihood estimator_confidence h =
     dict_get likelihoods h uniform_likelihood * estimator_confidence
     + uniform_likelihood * (1 - estimator_confidence)"

definition all_posteriors ::
  "(string, real) dict \<Rightarrow> (string, real) dict \<Rightarrow> real \<Rightarrow> real \<Rightarrow> (string, real) dict" where
  "all_posteriors prior likelihoods uniform_likelihood estimator_confidence =
     map (\<lambda>(h, p). (h, p * blended likelihoods uniform_likelihood estimator_confidence h)) prior"

text \<open>The surviving set, or the full set when the floor removes everything.\<close>

definition surviving ::
  "(string, real) dict \<Rightarrow> (string, real) dict \<Rightarrow> real \<Rightarrow> real \<Rightarrow> real \<Rightarrow> (string, real) dict" where
  "surviving prior likelihoods min_probability uniform_likelihood estimator_confidence =
     (let ap = all_posteriors prior likelihoods uniform_likelihood estimator_confidence;
          kept = filter (\<lambda>(h, p). p \<ge> min_probability) ap
      in if kept = [] then ap else kept)"

subsection \<open>What a call returns\<close>

lemma calculate_posterior_unfold:
  "calculate_posterior prior likelihoods min_probability uniform_likelihood estimator_confidence =
     (let u = surviving prior likelihoods min_probability uniform_likelihood estimator_confidence;
          m = sum_list (dict_values u)
      in if u \<noteq> [] \<and> m = 0 then Inl ZeroDivisionError
         else Inr (map (\<lambda>(h, p). (h, p / m)) u, m))"
  by (simp add: calculate_posterior_def surviving_def all_posteriors_def blended_def Let_def)

lemma surviving_nonempty:
  "prior \<noteq> [] \<Longrightarrow> surviving prior likelihoods min_probability ul ec \<noteq> []"
  by (auto simp: surviving_def all_posteriors_def Let_def)

lemma keys_all_posteriors: "keys (all_posteriors prior likelihoods ul ec) = keys prior"
  by (induction prior) (auto simp: all_posteriors_def keys_def)

lemma keys_filter_subset: "set (keys (filter P d)) \<subseteq> set (keys d)"
  by (induction d) (auto simp: keys_def)

lemma surviving_keys:
  "set (keys (surviving prior likelihoods min_probability ul ec)) \<subseteq> set (keys prior)"
proof -
  have "set (keys (filter (\<lambda>(h, p). p \<ge> min_probability) (all_posteriors prior likelihoods ul ec)))
          \<subseteq> set (keys prior)"
    using keys_filter_subset [of _ "all_posteriors prior likelihoods ul ec"]
    by (simp add: keys_all_posteriors)
  then show ?thesis
    by (simp add: surviving_def Let_def keys_all_posteriors)
qed

lemma sum_list_scaled_values:
  "sum_list (dict_values (map (\<lambda>(h, p). (h, p / m)) u)) = sum_list (dict_values u) / (m::real)"
  by (induction u) (auto simp: dict_values_def add_divide_distrib)

lemma keys_scaled: "keys (map (\<lambda>(h, p). (h, p / (m::real))) u) = keys u"
  by (induction u) (auto simp: keys_def)

text \<open>
  Whenever the sum of the surviving (or fallback) values is not zero, the call returns:
  the posterior is not empty, its keys are keys of the prior, its values sum to one and
  the marginal is the sum of the surviving unnormalised posteriors.
\<close>

lemma calculate_posterior_returns:
  assumes "prior \<noteq> []"
    and "sum_list (dict_values (surviving prior likelihoods min_probability ul ec)) \<noteq> 0"
  shows "\<exists>posterior marginal.
           calculate_posterior prior likelihoods min_probability ul ec = Inr (posterior, marginal)
           \<and> posterior \<noteq> []
           \<and> set (keys posterior) \<subseteq> set (keys prior)
           \<and> sum_list (dict_values posterior) = 1
           \<and> marginal = sum_list (dict_values (surviving prior likelihoods min_probability ul ec))"
proof -
  let ?u = "surviving prior likelihoods min_probability ul ec"
  let ?m = "sum_list (dict_values ?u)"
  have ne: "?u \<noteq> []" using assms(1) by (rule surviving_nonempty)
  have "calculate_posterior prior likelihoods min_probability ul ec
          = Inr (map (\<lambda>(h, p). (h, p / ?m)) ?u, ?m)"
    using assms(2) by (simp add: calculate_posterior_unfold Let_def)
  moreover have "map (\<lambda>(h, p). (h, p / ?m)) ?u \<noteq> []" using ne by simp
  moreover have "set (keys (map (\<lambda>(h, p). (h, p / ?m)) ?u)) \<subseteq> set (keys prior)"
    by (simp only: keys_scaled surviving_keys)
  moreover have "sum_list (dict_values (map (\<lambda>(h, p). (h, p / ?m)) ?u)) = 1"
    using assms(2) by (simp add: sum_list_scaled_values)
  ultimately show ?thesis by blast
qed

text \<open>The call raises exactly when a non-empty surviving set sums to zero.\<close>

lemma calculate_posterior_raises_iff:
  "(calculate_posterior prior likelihoods min_probability ul ec = Inl ZeroDivisionError)
     = (prior \<noteq> [] \<and> sum_list (dict_values (surviving prior likelihoods min_probability ul ec)) = 0)"
proof (cases "prior = []")
  case True
  then show ?thesis
    by (simp add: calculate_posterior_unfold surviving_def all_posteriors_def Let_def)
next
  case False
  then show ?thesis
    using surviving_nonempty [OF False, of likelihoods min_probability ul ec]
    by (simp add: calculate_posterior_unfold Let_def)
qed

text \<open>
  C1.  The degenerate case of the specification: prior \<open>{A: 0.5, B: 0.5}\<close>, likelihoods
  \<open>{A: 0.0, B: 0.0}\<close>, floor \<open>0.1\<close>, uniform likelihood \<open>0.5\<close>, estimator confidence
  \<open>1.0\<close>.  Both unnormalised posteriors are zero, the floor removes both, the fallback
  restores the full set \<open>{A: 0.0, B: 0.0}\<close>, whose sum is zero: the renormalisation
  divides by zero and the call raises instead of returning a belief state.
\<close>

theorem calculate_posterior_degenerate_raises:
  "calculate_posterior [(''A'', 0.5), (''B'', 0.5)] [(''A'', 0), (''B'', 0)] 0.1 0.5 1
     = Inl ZeroDivisionError"
  by (simp add: calculate_posterior_def dict_get_def dict_values_def)

text \<open>
  C2.  A call with a non-empty prior need not return at all: with the default floor
  \<open>1 / 25000\<close>, a uniform prior over four hypotheses and an answer that every
  hypothesis gives likelihood zero, the marginal is zero and the call raises
  \<open>ZeroDivisionError\<close>, so there is no posterior that could sum to one.
\<close>

theorem calculate_posterior_zero_marginal_raises:
  "calculate_posterior
     [(''A'', 0.25), (''B'', 0.25), (''C'', 0.25), (''D'', 0.25)]
     [(''A'', 0), (''B'', 0), (''C'', 0), (''D'', 0)] (1 / 25000) 0.5 1
     = Inl ZeroDivisionError"
  by (simp add: calculate_posterior_def dict_get_def dict_values_def)

subsection \<open>Running the engine on its own output\<close>

lemma all_posteriors_neutral:
  "\<forall>h \<in> set (keys d). blended L u c h = 1 \<Longrightarrow> all_posteriors d L u c = d"
  by (induction d) (auto simp: all_posteriors_def keys_def)

lemma scale_by_one: "map (\<lambda>(h, p). (h, p / (1::real))) d = d"
  by (induction d) auto

text \<open>
  After the below-floor fallback a second pass can prune even when it re-weights nothing:
  the fallback keeps values under the floor, and renormalising lifts only some of them
  over it.
\<close>

lemma pruning_after_fallback_example:
  "calculate_posterior [(''A'', 0.5), (''B'', 0.5)] [(''A'', 0.1), (''B'', 0.01)] 0.1 0.5 1
      = Inr ([(''A'', 10 / 11), (''B'', 1 / 11)], 0.055)
   \<and> calculate_posterior [(''A'', 10 / 11), (''B'', 1 / 11)] [] 0.1 1 1
      = Inr ([(''A'', 1)], 10 / 11)"
  by (simp add: calculate_posterior_def dict_get_def dict_values_def)

text \<open>
  C4 as stated fails.  With prior \<open>{A: 0.5, B: 0.5}\<close>, likelihoods \<open>{A: 0.9, B: 0.3}\<close>,
  floor \<open>0.1\<close> and estimator confidence \<open>1\<close> the first call keeps both hypotheses and
  returns \<open>{A: 0.75, B: 0.25}\<close>; the second call, on that posterior with the same
  likelihoods and floor, weighs \<open>B\<close> down to \<open>0.075\<close> and removes it.
\<close>

theorem pruning_not_idempotent_counterexample:
  "calculate_posterior [(''A'', 0.5), (''B'', 0.5)] [(''A'', 0.9), (''B'', 0.3)] 0.1 0.5 1
      = Inr ([(''A'', 0.75), (''B'', 0.25)], 0.6)
   \<and> calculate_posterior [(''A'', 0.75), (''B'', 0.25)] [(''A'', 0.9), (''B'', 0.3)] 0.1 0.5 1
      = Inr ([(''A'', 1)], 0.675)
   \<and> set (keys [(''A'', 1::real)]) \<noteq> set (keys [(''A'', 0.75::real), (''B'', 0.25)])"
  by (simp add: calculate_posterior_def dict_get_def dict_values_def keys_def)

text \<open>
  C4, amended.  Let a first call return \<open>(posterior, marginal)\<close> with a floor that is
  not negative, at least one hypothesis at or above the floor (no fallback) and a
  marginal of at most one.  A second call on \<open>posterior\<close> with the same floor that
  re-weights nothing (blended likelihood one for every key of \<open>posterior\<close>, as with
  empty likelihoods and uniform likelihood one) removes no hypothesis: it returns the
  same posterior, with marginal one.  With the first call's likelihoods applied again,
  the second call's keys are still keys of the first posterior.
\<close>

theorem pruning_idempotent_without_reweighting:
  assumes ret: "calculate_posterior prior likelihoods min_probability ul ec = Inr (posterior, marginal)"
    and floor: "0 \<le> min_probability"
    and kept: "\<exists>(h, p) \<in> set (all_posteriors prior likelihoods ul ec). p \<ge> min_probability"
    and le1: "marginal \<le> 1"
    and neutral: "\<forall>h \<in> set (keys posterior). blended likelihoods' ul' ec' h = 1"
  shows "calculate_posterior posterior likelihoods' min_probability ul' ec' = Inr (posterior, 1)
         \<and> (\<forall>posterior2 marginal2.
               calculate_posterior posterior likelihoods min_probability ul ec
                 = Inr (posterior2, marginal2)
               \<longrightarrow> set (keys posterior2) \<subseteq> set (keys posterior))"
proof
  let ?ap = "all_posteriors prior likelihoods ul ec"
  let ?u = "filter (\<lambda>(h, p). p \<ge> min_probability) ?ap"
  have ne: "?u \<noteq> []" using kept by (auto simp: filter_empty_conv)
  then have surv: "surviving prior likelihoods min_probability ul ec = ?u"
    by (simp add: surviving_def Let_def)
  let ?m = "sum_list (dict_values ?u)"
  from ret surv ne have m0: "?m \<noteq> 0" and post: "posterior = map (\<lambda>(h, p). (h, p / ?m)) ?u"
    and m: "marginal = ?m"
    by (auto simp: calculate_posterior_unfold Let_def split: if_splits)
  have ge: "\<forall>x \<in> set ?u. min_probability \<le> snd x" by auto
  then have "0 \<le> ?m" using floor by (auto simp: dict_values_def intro!: sum_list_nonneg)
  with m0 le1 m have mpos: "0 < ?m" "?m \<le> 1" by auto
  have pge: "\<forall>x \<in> set posterior. min_probability \<le> snd x"
  proof
    fix x assume "x \<in> set posterior"
    then obtain h p where x: "x = (h, p / ?m)" and hp: "(h, p) \<in> set ?u"
      unfolding post by auto
    from hp have p: "min_probability \<le> p" by auto
    with floor have "0 \<le> p" by simp
    then have "p \<le> p / ?m" using mpos by (simp add: pos_le_divide_eq mult_left_le)
    with p x show "min_probability \<le> snd x" by simp
  qed
  have sum1: "sum_list (dict_values posterior) = 1"
    unfolding post using m0 by (simp add: sum_list_scaled_values)
  have ap2: "all_posteriors posterior likelihoods' ul' ec' = posterior"
    using neutral by (rule all_posteriors_neutral)
  have "filter (\<lambda>(h, p). p \<ge> min_probability) posterior = posterior"
    using pge by (auto simp: filter_id_conv)
  then have "surviving posterior likelihoods' min_probability ul' ec' = posterior"
    by (simp add: surviving_def ap2 Let_def)
  then show "calculate_posterior posterior likelihoods' min_probability ul' ec' = Inr (posterior, 1)"
    using sum1 by (simp add: calculate_posterior_unfold Let_def scale_by_one)
next
  show "\<forall>posterior2 marginal2.
          calculate_posterior posterior likelihoods min_probability ul ec
            = Inr (posterior2, marginal2)
          \<longrightarrow> set (keys posterior2) \<subseteq> set (keys posterior)"
    using surviving_keys [of posterior likelihoods min_probability ul ec]
    by (auto simp: calculate_posterior_unfold Let_def keys_scaled split: if_splits)
qed

theorem pruning_idempotent_without_reweighting_witness:
  "calculate_posterior [(''A'', 0.75), (''B'', 0.25)] [] 0.1 1 0.7
     = Inr ([(''A'', 0.75), (''B'', 0.25)], 1)
   \<and> calculate_posterior [(''A'', 0.5), (''B'', 0.5)] [(''A'', 0.9), (''B'', 0.3)] 0.1 0.5 1
     = Inr ([(''A'', 0.75), (''B'', 0.25)], 0.6)"
proof -
  have ret: "calculate_posterior [(''A'', 0.5), (''B'', 0.5)] [(''A'', 0.9), (''B'', 0.3)] 0.1 0.5 1
               = Inr ([(''A'', 0.75), (''B'', 0.25)], 0.6)"
    by (simp add: calculate_posterior_def dict_get_def dict_values_def)
  have floor: "(0::real) \<le> 0.1" by simp
  have kept: "\<exists>(h, p) \<in> set (all_posteriors [(''A'', 0.5), (''B'', 0.5)]
                                  [(''A'', 0.9), (''B'', 0.3)] 0.5 1). p \<ge> 0.1"
    by (simp add: all_posteriors_def blended_def dict_get_def)
  have le1: "(0.6::real) \<le> 1" by simp
  have neutral: "\<forall>h \<in> set (keys [(''A'', 0.75::real), (''B'', 0.25)]). blended [] 1 0.7 h = 1"
    by (simp add: blended_def dict_get_def)
  from pruning_idempotent_without_reweighting [OF ret floor kept le1 neutral] ret
  show ?thesis by simp
qed

section \<open>Entropy and information gain (rewards.py)\<close>

text \<open>\<open>shannon_entropy\<close>, lines 6 and 7: \<open>-sum(prob * math.log2(prob) ... if prob > 0)\<close>.\<close>

definition shannon_entropy :: "(string, real) dict \<Rightarrow> real" where
  "shannon_entropy belief_state =
     - sum_list (map (\<lambda>prob. prob * log 2 prob)
                     (filter (\<lambda>prob. prob > 0) (dict_values belief_state)))"

text \<open>\<open>information_gain\<close>, lines 10 to 13.\<close>

definition information_gain :: "(string, real) dict \<Rightarrow> (string, real) dict \<Rightarrow> real" where
  "information_gain prior_belief_state posterior_belief_state =
     shannon_entropy prior_belief_state - shannon_entropy posterior_belief_state"

text \<open>The hypotheses a belief state gives a probability other than zero.\<close>

definition support :: "(string, real) dict \<Rightarrow> string set" where
  "support d = set (keys (filter (\<lambda>(h, p). p \<noteq> 0) d))"

subsection \<open>Logarithms of powers of two\<close>

lemma log2_inverse_power: "log 2 (1 / 2 ^ n) = - real n"
  by (simp add: log_divide)

lemma log2_half: "log 2 (1 / 2) = - 1"
  using log2_inverse_power [of 1] by simp

lemma log2_quarter: "log 2 (1 / 4) = - 2"
  using log2_inverse_power [of 2] by simp

lemma log2_eighth: "log 2 (1 / 8) = - 3"
  using log2_inverse_power [of 3] by simp

lemma log2_sixteenth: "log 2 (1 / 16) = - 4"
  using log2_inverse_power [of 4] by simp

subsection \<open>The entropy of a distribution is at most the logarithm of its support\<close>

lemma entropy_term_bound:
  assumes "0 < p" "0 < k"
  shows "- (p * log 2 p) \<le> p * log 2 k + (1 / k - p) / ln 2"
proof -
  have kp: "0 < 1 / (k * p)" using assms by simp
  have "ln (1 / (k * p)) \<le> 1 / (k * p) - 1" using kp by (rule ln_le_minus_one)
  then have "p * ln (1 / (k * p)) \<le> p * (1 / (k * p) - 1)"
    using assms(1) by (simp add: mult_le_cancel_left_pos)
  also have "\<dots> = 1 / k - p" using assms by (simp add: field_simps)
  finally have "p * ln (1 / (k * p)) / ln 2 \<le> (1 / k - p) / ln 2"
    by (simp add: divide_right_mono)
  moreover have "p * ln (1 / (k * p)) / ln 2 = - (p * log 2 p) - p * log 2 k"
    using assms by (simp add: log_def ln_div ln_mult field_simps)
  ultimately show ?thesis by simp
qed

lemma entropy_sum_bound:
  assumes "\<forall>p \<in> set qs. 0 < p" "0 < k"
  shows "- sum_list (map (\<lambda>p. p * log 2 p) qs)
           \<le> sum_list qs * log 2 k + (real (length qs) / k - sum_list qs) / ln 2"
  using assms(1)
proof (induction qs)
  case Nil
  then show ?case by simp
next
  case (Cons q qs)
  have "- (q * log 2 q) \<le> q * log 2 k + (1 / k - q) / ln 2"
    using Cons.prems assms(2) by (simp add: entropy_term_bound)
  moreover have "- sum_list (map (\<lambda>p. p * log 2 p) qs)
           \<le> sum_list qs * log 2 k + (real (length qs) / k - sum_list qs) / ln 2"
    using Cons by simp
  ultimately show ?case
    by (simp add: algebra_simps add_divide_distrib diff_divide_distrib)
qed

lemma sum_list_filter_pos:
  "\<forall>p \<in> set ps. (0::real) \<le> p \<Longrightarrow> sum_list (filter (\<lambda>p. p > 0) ps) = sum_list ps"
  by (induction ps) (auto simp: order.order_iff_strict)

lemma shannon_entropy_le_log_count:
  assumes nonneg: "\<forall>p \<in> set (dict_values d). 0 \<le> p"
    and total: "sum_list (dict_values d) = 1"
  shows "shannon_entropy d \<le> log 2 (real (length (filter (\<lambda>p. p > 0) (dict_values d))))"
proof -
  let ?qs = "filter (\<lambda>p. p > 0) (dict_values d)"
  have s: "sum_list ?qs = 1" using nonneg total by (simp add: sum_list_filter_pos)
  then have "?qs \<noteq> []" by auto
  then have k: "0 < real (length ?qs)" by simp
  have "\<forall>p \<in> set ?qs. 0 < p" by simp
  from entropy_sum_bound [OF this k] s k show ?thesis
    by (simp add: shannon_entropy_def)
qed

lemma shannon_entropy_uniform:
  assumes "d \<noteq> []" and "\<forall>p \<in> set (dict_values d). p = 1 / real (length d)"
  shows "shannon_entropy d = log 2 (real (length d))"
proof -
  let ?n = "real (length d)"
  have n: "0 < ?n" using assms(1) by simp
  have len: "length (dict_values d) = length d" by (simp add: dict_values_def)
  have all: "\<forall>p \<in> set (dict_values d). p = 1 / ?n" using assms(2) .
  then have f: "filter (\<lambda>p. p > 0) (dict_values d) = dict_values d"
    using n by (auto simp: filter_id_conv)
  have "map (\<lambda>p. p * log 2 p) (dict_values d) = replicate (length d) (1 / ?n * log 2 (1 / ?n))"
    using all len by (metis (no_types, lifting) map_eq_conv map_replicate_const)
  then have "sum_list (map (\<lambda>p. p * log 2 p) (dict_values d)) = ?n * (1 / ?n * log 2 (1 / ?n))"
    by (simp add: sum_list_replicate)
  also have "\<dots> = - log 2 ?n" using n by (simp add: log_divide)
  finally show ?thesis by (simp add: shannon_entropy_def f)
qed

lemma card_support_le: "card (support d) \<le> length d"
proof -
  have "card (support d) \<le> length (keys (filter (\<lambda>(h, p). p \<noteq> 0) d))"
    unfolding support_def by (rule card_length)
  also have "\<dots> \<le> length d" by (simp add: keys_def)
  finally show ?thesis .
qed

lemma card_support_distinct:
  assumes "distinct (keys d)" and "\<forall>p \<in> set (dict_values d). 0 \<le> p"
  shows "card (support d) = length (filter (\<lambda>p. p > 0) (dict_values d))"
proof -
  have "distinct (keys (filter (\<lambda>(h, p). p \<noteq> 0) d))"
    using assms(1) unfolding keys_def by (rule distinct_map_filter)
  from distinct_card [OF this]
  have "card (support d) = length (filter (\<lambda>(h, p). p \<noteq> 0) d)"
    by (simp only: support_def keys_def length_map)
  also have "\<dots> = length (filter (\<lambda>p. p > 0) (dict_values d))"
    using assms(2) by (induction d) (auto simp: dict_values_def)
  finally show ?thesis .
qed

text \<open>
  C5 as stated fails in its second half.  The posterior \<open>{A, B, C, D: 1/4}\<close> puts
  its probability on four of the five hypotheses of the prior
  \<open>{A: 1/2, B: 1/4, C: 1/8, D: 1/16, E: 1/16}\<close>, and the information gain is
  \<open>1.875 - 2 = -0.125\<close>: negative, not strictly positive.
\<close>

theorem information_gain_fewer_hypotheses_counterexample:
  "support [(''A'', 1 / 4), (''B'', 1 / 4), (''C'', 1 / 4), (''D'', 1 / 4)]
     \<subset> support [(''A'', 1 / 2), (''B'', 1 / 4), (''C'', 1 / 8), (''D'', 1 / 16), (''E'', 1 / 16)]
   \<and> information_gain
        [(''A'', 1 / 2), (''B'', 1 / 4), (''C'', 1 / 8), (''D'', 1 / 16), (''E'', 1 / 16)]
        [(''A'', 1 / 4), (''B'', 1 / 4), (''C'', 1 / 4), (''D'', 1 / 4)] = - (1 / 8)"
proof
  let ?post = "[(''A'', 1 / 4), (''B'', 1 / 4), (''C'', 1 / 4), (''D'', 1 / 4 :: real)]"
  let ?prior = "[(''A'', 1 / 2), (''B'', 1 / 4), (''C'', 1 / 8), (''D'', 1 / 16),
                 (''E'', 1 / 16 :: real)]"
  have "support ?post \<subseteq> support ?prior" by (simp add: support_def keys_def)
  moreover have "''E'' \<in> support ?prior" by (simp add: support_def keys_def)
  moreover have "''E'' \<notin> support ?post" by (simp add: support_def keys_def)
  ultimately show "support ?post \<subset> support ?prior" by blast
  show "information_gain ?prior ?post = - (1 / 8)"
    by (simp add: information_gain_def shannon_entropy_def dict_values_def
        log2_half log2_quarter log2_eighth log2_sixteenth)
qed

text \<open>
  C5, amended.  \<open>information_gain\<close> of a belief state against itself is zero.  It is
  strictly positive when the prior is uniform over its hypotheses and the posterior
  is a probability distribution (distinct keys, no negative value, sum one) whose
  hypotheses of nonzero probability are a proper subset of the prior's.
\<close>

theorem information_gain_zero_and_positive_from_uniform:
  assumes ne: "prior \<noteq> []"
    and uniform: "\<forall>p \<in> set (dict_values prior). p = 1 / real (length prior)"
    and dist: "distinct (keys posterior)"
    and nonneg: "\<forall>p \<in> set (dict_values posterior). 0 \<le> p"
    and total: "sum_list (dict_values posterior) = 1"
    and fewer: "support posterior \<subset> support prior"
  shows "information_gain b b = 0 \<and> 0 < information_gain prior posterior"
proof
  show "information_gain b b = 0" by (simp add: information_gain_def)
  let ?k = "length (filter (\<lambda>p. p > 0) (dict_values posterior))"
  have "finite (support prior)" by (simp add: support_def)
  then have "card (support posterior) < card (support prior)"
    using fewer by (rule psubset_card_mono)
  also have "\<dots> \<le> length prior" by (rule card_support_le)
  finally have kn: "?k < length prior"
    using dist nonneg by (simp add: card_support_distinct)
  have "sum_list (filter (\<lambda>p. p > 0) (dict_values posterior)) = 1"
    using nonneg total by (simp add: sum_list_filter_pos)
  then have "filter (\<lambda>p. p > 0) (dict_values posterior) \<noteq> []" by auto
  then have kpos: "0 < ?k" by simp
  have lt: "log 2 (real ?k) < log 2 (real (length prior))"
  proof (subst log_less_cancel_iff)
    show "(1::real) < 2" by simp
    show "0 < real ?k" using kpos by simp
    show "0 < real (length prior)" using ne by simp
    show "real ?k < real (length prior)" using kn by simp
  qed
  have "shannon_entropy posterior \<le> log 2 (real ?k)"
    using nonneg total by (rule shannon_entropy_le_log_count)
  also note lt
  also have "log 2 (real (length prior)) = shannon_entropy prior"
    using ne uniform by (simp add: shannon_entropy_uniform)
  finally show "0 < information_gain prior posterior"
    by (simp add: information_gain_def)
qed

theorem information_gain_zero_and_positive_from_uniform_witness:
  "information_gain [(''A'', 1 / 2), (''B'', 1 / 2)] [(''A'', 1 / 2), (''B'', 1 / 2)] = 0
   \<and> 0 < information_gain
             [(''A'', 1 / 4), (''B'', 1 / 4), (''C'', 1 / 4), (''D'', 1 / 4)]
             [(''A'', 1 / 2), (''B'', 1 / 2)]"
proof -
  let ?prior = "[(''A'', 1 / 4), (''B'', 1 / 4), (''C'', 1 / 4), (''D'', 1 / 4 :: real)]"
  let ?post = "[(''A'', 1 / 2), (''B'', 1 / 2 :: real)]"
  have ne: "?prior \<noteq> []" by simp
  have uniform: "\<forall>p \<in> set (dict_values ?prior). p = 1 / real (length ?prior)"
    by (simp add: dict_values_def)
  have dist: "distinct (keys ?post)" by (simp add: keys_def)
  have nonneg: "\<forall>p \<in> set (dict_values ?post). 0 \<le> p" by (simp add: dict_values_def)
  have total: "sum_list (dict_values ?post) = 1" by (simp add: dict_values_def)
  have "support ?post \<subseteq> support ?prior" by (simp add: support_def keys_def)
  moreover have "''C'' \<in> support ?prior" by (simp add: support_def keys_def)
  moreover have "''C'' \<notin> support ?post" by (simp add: support_def keys_def)
  ultimately have fewer: "support ?post \<subset> support ?prior" by blast
  from information_gain_zero_and_positive_from_uniform
         [OF ne uniform dist nonneg total fewer, of ?post]
  show ?thesis by simp
qed

section \<open>Tree node model (node.py)\<close>

text \<open>
  \<open>EvidenceNode\<close> and \<open>QuestionNode\<close> objects point at each other (parent and
  children), so they live in a store: a node is referred to by its position in the list
  of the nodes of its class, and a new object is appended.  The fields keep the
  source's names; those of \<open>QuestionNode\<close> that \<open>EvidenceNode\<close> has too carry the
  prefix \<open>q_\<close>.
\<close>

type_synonym ref = nat

record EvidenceNode =
  answer :: string
  belief_state :: "(string, real) dict"
  marginal_likelihood :: real
  parent :: "ref option"
  children :: "ref list"

record QuestionNode =
  question :: string
  possible_answers :: "string list"
  q_parent :: ref
  q_children :: "ref list"

record tree =
  evidence_nodes :: "EvidenceNode list"
  question_nodes :: "QuestionNode list"

definition ev :: "tree \<Rightarrow> ref \<Rightarrow> EvidenceNode" where
  "ev t r = evidence_nodes t ! r"

definition qu :: "tree \<Rightarrow> ref \<Rightarrow> QuestionNode" where
  "qu t r = question_nodes t ! r"

text \<open>
  The recursive functions of the source run on the interpreter's stack: \<open>limit\<close> is the
  number of nested calls still allowed, and a call beyond it raises \<open>RecursionError\<close>.

  \<open>get_conversation_depth\<close>, lines 29 to 33.
\<close>

fun get_conversation_depth :: "nat \<Rightarrow> tree \<Rightarrow> ref \<Rightarrow> error + nat" where
  "get_conversation_depth 0 t node = Inl RecursionError"
| "get_conversation_depth (Suc limit) t node =
     (case parent (ev t node) of
        None \<Rightarrow> Inr 0
      | Some q \<Rightarrow>
          (case get_conversation_depth limit t (q_parent (qu t q)) of
             Inl e \<Rightarrow> Inl e
           | Inr d \<Rightarrow> Inr (1 + d)))"

text \<open>The settings of a \<open>TreeTask\<close> (tasks/tree_task.py, lines 12 to 43).\<close>

record task_settings =
  max_lookahead_depth :: int
  max_conversation_depth :: int
  confidence_threshold :: real
  estimator_confidence :: real

text \<open>\<open>is_terminal\<close>, method.py lines 186 to 189.\<close>

definition is_terminal :: "nat \<Rightarrow> tree \<Rightarrow> 'a task_settings_scheme \<Rightarrow> ref \<Rightarrow> error + bool" where
  "is_terminal limit t task node =
     (case get_conversation_depth limit t node of
        Inl e \<Rightarrow> Inl e
      | Inr d \<Rightarrow>
          Inr (int d \<ge> max_conversation_depth task
               \<or> list_ex (\<lambda>prob. prob \<ge> confidence_threshold task)
                          (dict_values (belief_state (ev t node)))))"

text \<open>
  The conversation depth of the specification: the number of question-to-evidence hops
  between the root and a node, walking the parent links two at a time.
\<close>

inductive conversation_hops :: "tree \<Rightarrow> ref \<Rightarrow> nat \<Rightarrow> bool" for t where
  root: "parent (ev t n) = None \<Longrightarrow> conversation_hops t n 0"
| hop: "parent (ev t n) = Some q \<Longrightarrow> conversation_hops t (q_parent (qu t q)) k
         \<Longrightarrow> conversation_hops t n (Suc k)"

section \<open>Reward engine (rewards.py)\<close>

text \<open>A \<open>for\<close> loop (or \<open>sum\<close> over a generator) adding up values; the first exception ends it.\<close>

primrec sum_loop :: "('a \<Rightarrow> error + real) \<Rightarrow> 'a list \<Rightarrow> real \<Rightarrow> error + real" where
  "sum_loop f [] acc = Inr acc"
| "sum_loop f (x # xs) acc =
     (case f x of Inl e \<Rightarrow> Inl e | Inr r \<Rightarrow> sum_loop f xs (acc + r))"

text \<open>
  \<open>specificity_penalty\<close>, lines 16 to 19: \<open>max\<close> and \<open>min\<close> of an empty sequence raise
  \<open>ValueError\<close>.
\<close>

definition specificity_penalty :: "tree \<Rightarrow> ref \<Rightarrow> real \<Rightarrow> error + real" where
  "specificity_penalty t q sharpness_constant =
     (case map (\<lambda>evidence. marginal_likelihood (ev t evidence)) (q_children (qu t q)) of
        [] \<Rightarrow> Inl ValueError
      | m # ms \<Rightarrow> Inr (sharpness_constant * (fold max ms m - fold min ms m)))"

text \<open>\<open>immediate_reward\<close>, lines 22 to 26.\<close>

definition immediate_reward :: "tree \<Rightarrow> ref \<Rightarrow> real \<Rightarrow> error + real" where
  "immediate_reward t evidence sharpness_constant =
     (case parent (ev t evidence) of
        None \<Rightarrow> Inl AssertionError
      | Some q \<Rightarrow>
          (let gain = information_gain (belief_state (ev t (q_parent (qu t q))))
                                       (belief_state (ev t evidence))
           in case specificity_penalty t q sharpness_constant of
                Inl e \<Rightarrow> Inl e
              | Inr penalty \<Rightarrow>
                  if 1 + penalty = 0 then Inl ZeroDivisionError
                  else Inr (gain / (1 + penalty))))"

text \<open>\<open>accumulated_reward\<close>, lines 29 to 35.\<close>

fun accumulated_reward :: "nat \<Rightarrow> tree \<Rightarrow> ref \<Rightarrow> real \<Rightarrow> error + real" where
  "accumulated_reward 0 t evidence sharpness_constant = Inl RecursionError"
| "accumulated_reward (Suc limit) t evidence sharpness_constant =
     (case parent (ev t evidence) of
        None \<Rightarrow> Inr 0
      | Some q \<Rightarrow>
          (case immediate_reward t evidence sharpness_constant of
             Inl e \<Rightarrow> Inl e
           | Inr r \<Rightarrow>
               (case accumulated_reward limit t (q_parent (qu t q)) sharpness_constant of
                  Inl e \<Rightarrow> Inl e
                | Inr a \<Rightarrow> Inr (r + a))))"

text \<open>\<open>expected_reward\<close>, lines 38 to 54.\<close>

fun expected_reward :: "nat \<Rightarrow> tree \<Rightarrow> ref \<Rightarrow> real \<Rightarrow> error + real" where
  "expected_reward 0 t q sharpness_constant = Inl RecursionError"
| "expected_reward (Suc limit) t q sharpness_constant =
     (if length (q_children (qu t q)) > 0 then
        sum_loop
          (\<lambda>evidence.
             case (if length (children (ev t evidence)) > 0
                   then (case sum_loop (\<lambda>future_question.
                                          expected_reward limit t future_question sharpness_constant)
                                       (children (ev t evidence)) 0 of
                           Inl e \<Rightarrow> Inl e
                         | Inr summed \<Rightarrow> Inr (summed / real (length (children (ev t evidence)))))
                   else accumulated_reward limit t evidence sharpness_constant) of
               Inl e \<Rightarrow> Inl e
             | Inr evidence_reward \<Rightarrow> Inr (marginal_likelihood (ev t evidence) * evidence_reward))
          (q_children (qu t q)) 0
      else Inl AssertionError)"

text \<open>
  A tree for the examples: the root believes \<open>A\<close>, \<open>B\<close>, \<open>C\<close>, \<open>D\<close> equally likely;
  its question splits them into \<open>{A, B}\<close> (evidence 1) and \<open>{C, D}\<close> (evidence 2, a
  leaf); evidence 1 has one further question, whose answers (evidence 3 and 4) single
  out \<open>A\<close> and \<open>B\<close> with marginal likelihoods \<open>3/4\<close> and \<open>1/4\<close>.
\<close>

definition example_tree :: tree where
  "example_tree =
     \<lparr>evidence_nodes =
        [\<lparr>answer = ''ROOT'', belief_state = [(''A'', 1 / 4), (''B'', 1 / 4), (''C'', 1 / 4), (''D'', 1 / 4)],
          marginal_likelihood = 1, parent = None, children = [0]\<rparr>,
         \<lparr>answer = ''Yes'', belief_state = [(''A'', 1 / 2), (''B'', 1 / 2)],
          marginal_likelihood = 1 / 2, parent = Some 0, children = [1]\<rparr>,
         \<lparr>answer = ''No'', belief_state = [(''C'', 1 / 2), (''D'', 1 / 2)],
          marginal_likelihood = 1 / 2, parent = Some 0, children = []\<rparr>,
         \<lparr>answer = ''Yes'', belief_state = [(''A'', 1)],
          marginal_likelihood = 3 / 4, parent = Some 1, children = []\<rparr>,
         \<lparr>answer = ''No'', belief_state = [(''B'', 1)],
          marginal_likelihood = 1 / 4, parent = Some 1, children = []\<rparr>],
      question_nodes =
        [\<lparr>question = ''Is it A or B?'', possible_answers = [''Yes'', ''No''],
          q_parent = 0, q_children = [1, 2]\<rparr>,
         \<lparr>question = ''Is it A?'', possible_answers = [''Yes'', ''No''],
          q_parent = 1, q_children = [3, 4]\<rparr>]\<rparr>"

text \<open>A root with one question that has not been expanded.\<close>

definition unexpanded_tree :: tree where
  "unexpanded_tree =
     \<lparr>evidence_nodes =
        [\<lparr>answer = ''ROOT'', belief_state = [(''A'', 1 / 2), (''B'', 1 / 2)],
          marginal_likelihood = 1, parent = None, children = [0]\<rparr>],
      question_nodes =
        [\<lparr>question = ''Is it A?'', possible_answers = [''Yes'', ''No''],
          q_parent = 0, q_children = []\<rparr>]\<rparr>"

subsection \<open>Unfolding the recursion limit, and the links of the example tree\<close>

lemma accumulated_reward_numeral:
  "accumulated_reward (numeral k) t evidence s =
     (case parent (ev t evidence) of
        None \<Rightarrow> Inr 0
      | Some q \<Rightarrow>
          (case immediate_reward t evidence s of
             Inl e \<Rightarrow> Inl e
           | Inr r \<Rightarrow>
               (case accumulated_reward (pred_numeral k) t (q_parent (qu t q)) s of
                  Inl e \<Rightarrow> Inl e
                | Inr a \<Rightarrow> Inr (r + a))))"
  by (simp add: numeral_eq_Suc)

lemma example_tree_parents:
  "parent (ev example_tree 0) = None"
  "parent (ev example_tree (Suc 0)) = Some 0"
  "parent (ev example_tree 2) = Some 0"
  "parent (ev example_tree 3) = Some (Suc 0)"
  "parent (ev example_tree 4) = Some (Suc 0)"
  "q_parent (qu example_tree 0) = 0"
  "q_parent (qu example_tree (Suc 0)) = Suc 0"
  by (simp_all add: example_tree_def ev_def qu_def)

lemma example_tree_children:
  "children (ev example_tree 0) = [0]"
  "children (ev example_tree (Suc 0)) = [Suc 0]"
  "children (ev example_tree 2) = []"
  "children (ev example_tree 3) = []"
  "children (ev example_tree 4) = []"
  "q_children (qu example_tree 0) = [Suc 0, 2]"
  "q_children (qu example_tree (Suc 0)) = [3, 4]"
  by (simp_all add: example_tree_def ev_def qu_def)

lemma example_tree_marginals:
  "marginal_likelihood (ev example_tree (Suc 0)) = 1 / 2"
  "marginal_likelihood (ev example_tree 2) = 1 / 2"
  "marginal_likelihood (ev example_tree 3) = 3 / 4"
  "marginal_likelihood (ev example_tree 4) = 1 / 4"
  by (simp_all add: example_tree_def ev_def)

subsection \<open>Conversation depth and the stop predicate\<close>

lemma depth_of_hops:
  "conversation_hops t n k \<Longrightarrow> k < limit \<Longrightarrow> get_conversation_depth limit t n = Inr k"
proof (induction arbitrary: limit rule: conversation_hops.induct)
  case (root n)
  then show ?case by (cases limit) auto
next
  case (hop n q k)
  then show ?case by (cases limit) auto
qed

lemma conversation_hops_root: "conversation_hops t n k \<Longrightarrow> parent (ev t n) = None \<Longrightarrow> k = 0"
  by (erule conversation_hops.cases) auto

lemma conversation_hops_parent:
  "conversation_hops t n k \<Longrightarrow> parent (ev t n) = Some q
     \<Longrightarrow> \<exists>d. conversation_hops t (q_parent (qu t q)) d \<and> k = Suc d"
  by (erule conversation_hops.cases) auto

text \<open>
  C8.  For a node \<open>k\<close> hops from the root and a recursion limit above \<open>k\<close>,
  \<open>get_conversation_depth\<close> returns \<open>k\<close>: zero for the root (no parent), and one more
  than its result on the grandparent evidence node otherwise.  \<open>is_terminal\<close> is then
  true exactly when that depth is at least \<open>max_conversation_depth\<close> or some
  probability of the belief state is at least \<open>confidence_threshold\<close>.
\<close>

theorem conversation_depth_and_is_terminal:
  assumes hops: "conversation_hops t node k" and lim: "k < limit"
  shows "get_conversation_depth limit t node = Inr k
         \<and> (parent (ev t node) = None \<longrightarrow> k = 0)
         \<and> (\<forall>q. parent (ev t node) = Some q \<longrightarrow>
                (\<exists>d. get_conversation_depth limit t (q_parent (qu t q)) = Inr d \<and> k = 1 + d))
         \<and> is_terminal limit t task node
             = Inr (max_conversation_depth task \<le> int k
                    \<or> (\<exists>prob \<in> set (dict_values (belief_state (ev t node))).
                          confidence_threshold task \<le> prob))"
proof (intro conjI allI impI)
  show depth: "get_conversation_depth limit t node = Inr k"
    using hops lim by (rule depth_of_hops)
  show "k = 0" if "parent (ev t node) = None"
    using hops that by (rule conversation_hops_root)
  show "\<exists>d. get_conversation_depth limit t (q_parent (qu t q)) = Inr d \<and> k = 1 + d"
    if "parent (ev t node) = Some q" for q
  proof -
    from conversation_hops_parent [OF hops that]
    obtain d where d: "conversation_hops t (q_parent (qu t q)) d" "k = Suc d" by blast
    with lim have "d < limit" by simp
    with d(1) have "get_conversation_depth limit t (q_parent (qu t q)) = Inr d"
      by (rule depth_of_hops)
    with d(2) show ?thesis by simp
  qed
  show "is_terminal limit t task node
          = Inr (max_conversation_depth task \<le> int k
                 \<or> (\<exists>prob \<in> set (dict_values (belief_state (ev t node))).
                       confidence_threshold task \<le> prob))"
    by (simp add: is_terminal_def depth list_ex_iff)
qed

text \<open>
  On the chain root, question 0, evidence 1, question 1, evidence 3 of the example tree
  the depths are 0, 1 and 2; with \<open>max_conversation_depth = 2\<close> and
  \<open>confidence_threshold = 0.8\<close> evidence 3 is terminal and evidence 1 is not.
\<close>

theorem conversation_depth_and_is_terminal_witness:
  "get_conversation_depth 3 example_tree 0 = Inr 0
   \<and> get_conversation_depth 3 example_tree (Suc 0) = Inr 1
   \<and> get_conversation_depth 3 example_tree 3 = Inr 2
   \<and> is_terminal 3 example_tree
        \<lparr>max_lookahead_depth = 1, max_conversation_depth = 2,
         confidence_threshold = 0.8, estimator_confidence = 0.7\<rparr> 3 = Inr True
   \<and> is_terminal 3 example_tree
        \<lparr>max_lookahead_depth = 1, max_conversation_depth = 2,
         confidence_threshold = 0.8, estimator_confidence = 0.7\<rparr> (Suc 0) = Inr False"
proof -
  let ?task = "\<lparr>max_lookahead_depth = 1, max_conversation_depth = 2,
                confidence_threshold = 0.8, estimator_confidence = 0.7\<rparr>"
  have h0: "conversation_hops example_tree 0 0"
    by (rule conversation_hops.root) (rule example_tree_parents)
  have h1: "conversation_hops example_tree (Suc 0) (Suc 0)"
    by (rule conversation_hops.hop [where q = 0])
       (simp_all only: example_tree_parents h0)
  have h3: "conversation_hops example_tree 3 (Suc (Suc 0))"
    by (rule conversation_hops.hop [where q = "Suc 0"])
       (simp_all only: example_tree_parents h1)
  have l0: "0 < (3::nat)" and l1: "Suc 0 < 3" and l2: "Suc (Suc 0) < 3" by simp_all
  from conversation_depth_and_is_terminal [OF h0 l0, of ?task]
       conversation_depth_and_is_terminal [OF h1 l1, of ?task]
       conversation_depth_and_is_terminal [OF h3 l2, of ?task]
  show ?thesis
    by (simp add: example_tree_def ev_def dict_values_def)
qed

subsection \<open>Preconditions of the rewards\<close>

text \<open>
  C7.  \<open>immediate_reward\<close> on an evidence node without parent (the root) fails its
  assertion, and so does \<open>expected_reward\<close> on a question node without evidence
  children: the result is \<open>AssertionError\<close>, not a value.
\<close>

theorem reward_preconditions:
  "(parent (ev t evidence) = None \<longrightarrow>
      immediate_reward t evidence sharpness_constant = Inl AssertionError)
   \<and> (q_children (qu t q) = [] \<longrightarrow>
        expected_reward (Suc limit) t q sharpness_constant = Inl AssertionError)"
  by (simp add: immediate_reward_def)

theorem reward_preconditions_witness:
  "immediate_reward unexpanded_tree 0 0.4 = Inl AssertionError
   \<and> expected_reward (Suc 999) unexpanded_tree 0 0.4 = Inl AssertionError"
proof -
  have root: "parent (ev unexpanded_tree 0) = None"
    by (simp add: unexpanded_tree_def ev_def)
  have none: "q_children (qu unexpanded_tree 0) = []"
    by (simp add: unexpanded_tree_def qu_def)
  from reward_preconditions [where t = unexpanded_tree and evidence = 0 and q = 0
                               and sharpness_constant = "0.4" and limit = 999] root none
  show ?thesis by simp
qed

subsection \<open>The expected reward is the weighted sum\<close>

lemma sum_loop_all_return:
  "\<forall>x \<in> set xs. f x = Inr (g x) \<Longrightarrow> sum_loop f xs acc = Inr (acc + sum_list (map g xs))"
  by (induction xs arbitrary: acc) (auto simp: add.assoc)

text \<open>
  C3.  For a question node with at least one evidence child, \<open>expected_reward\<close> is
  the sum over the evidence children \<open>e\<close> of \<open>marginal_likelihood e\<close> times the
  contribution of \<open>e\<close>: the arithmetic mean of \<open>expected_reward\<close> over the question
  children of \<open>e\<close> when it has some (their values are \<open>r\<close>), and
  \<open>accumulated_reward\<close> of \<open>e\<close> otherwise (its value is \<open>a e\<close>).
\<close>

theorem expected_reward_weighted_sum:
  assumes some: "q_children (qu t q) \<noteq> []"
    and deeper: "\<forall>e \<in> set (q_children (qu t q)). children (ev t e) \<noteq> [] \<longrightarrow>
                   (\<forall>fq \<in> set (children (ev t e)).
                      expected_reward limit t fq sharpness_constant = Inr (r fq))"
    and leaf: "\<forall>e \<in> set (q_children (qu t q)). children (ev t e) = [] \<longrightarrow>
                 accumulated_reward limit t e sharpness_constant = Inr (a e)"
  shows "expected_reward (Suc limit) t q sharpness_constant
           = Inr (\<Sum>e\<leftarrow>q_children (qu t q).
                    marginal_likelihood (ev t e)
                    * (if children (ev t e) \<noteq> []
                       then (\<Sum>fq\<leftarrow>children (ev t e). r fq) / real (length (children (ev t e)))
                       else a e))"
proof -
  let ?c = "\<lambda>e. if children (ev t e) \<noteq> []
                 then (\<Sum>fq\<leftarrow>children (ev t e). r fq) / real (length (children (ev t e)))
                 else a e"
  let ?f = "\<lambda>evidence.
             case (if length (children (ev t evidence)) > 0
                   then (case sum_loop (\<lambda>future_question.
                                          expected_reward limit t future_question sharpness_constant)
                                       (children (ev t evidence)) 0 of
                           Inl e \<Rightarrow> Inl e
                         | Inr summed \<Rightarrow> Inr (summed / real (length (children (ev t evidence)))))
                   else accumulated_reward limit t evidence sharpness_constant) of
               Inl e \<Rightarrow> Inl e
             | Inr evidence_reward \<Rightarrow> Inr (marginal_likelihood (ev t evidence) * evidence_reward)"
  have each: "\<forall>e \<in> set (q_children (qu t q)). ?f e = Inr (marginal_likelihood (ev t e) * ?c e)"
  proof
    fix e assume e: "e \<in> set (q_children (qu t q))"
    show "?f e = Inr (marginal_likelihood (ev t e) * ?c e)"
    proof (cases "children (ev t e) = []")
      case True
      with leaf e show ?thesis by simp
    next
      case False
      with deeper e
      have "\<forall>fq \<in> set (children (ev t e)).
              expected_reward limit t fq sharpness_constant = Inr (r fq)" by blast
      then have "sum_loop (\<lambda>fq. expected_reward limit t fq sharpness_constant)
                   (children (ev t e)) 0 = Inr (0 + (\<Sum>fq\<leftarrow>children (ev t e). r fq))"
        by (rule sum_loop_all_return)
      with False show ?thesis by simp
    qed
  qed
  have "sum_loop ?f (q_children (qu t q)) 0
          = Inr (0 + (\<Sum>e\<leftarrow>q_children (qu t q). marginal_likelihood (ev t e) * ?c e))"
    using each by (rule sum_loop_all_return)
  then show ?thesis using some by simp
qed

lemma example_immediate_rewards:
  "immediate_reward example_tree (Suc 0) (2 / 5) = Inr 1"
  "immediate_reward example_tree 2 (2 / 5) = Inr 1"
  "immediate_reward example_tree 3 (2 / 5) = Inr (5 / 6)"
  "immediate_reward example_tree 4 (2 / 5) = Inr (5 / 6)"
  by (simp_all add: example_tree_def ev_def qu_def immediate_reward_def specificity_penalty_def
        information_gain_def shannon_entropy_def dict_values_def log2_half log2_quarter)

lemma example_accumulated_rewards:
  "accumulated_reward 9 example_tree 2 (2 / 5) = Inr 1"
  "accumulated_reward 8 example_tree 3 (2 / 5) = Inr (11 / 6)"
  "accumulated_reward 8 example_tree 4 (2 / 5) = Inr (11 / 6)"
  by (simp_all add: accumulated_reward_numeral example_tree_parents example_immediate_rewards)

text \<open>
  On the example tree with sharpness \<open>0.4\<close>: question 1 scores
  \<open>3/4 * 11/6 + 1/4 * 11/6 = 11/6\<close>, and question 0 scores
  \<open>1/2 * (11/6) / 1 + 1/2 * 1 = 17/12\<close>.
\<close>

theorem expected_reward_weighted_sum_witness:
  "expected_reward (Suc 8) example_tree (Suc 0) 0.4 = Inr (11 / 6)
   \<and> expected_reward (Suc 9) example_tree 0 0.4 = Inr (17 / 12)"
proof -
  have q1: "expected_reward (Suc 8) example_tree (Suc 0) 0.4 = Inr (11 / 6)"
  proof -
    have some: "q_children (qu example_tree (Suc 0)) \<noteq> []"
      by (simp add: example_tree_children)
    have deeper: "\<forall>e \<in> set (q_children (qu example_tree (Suc 0))).
                    children (ev example_tree e) \<noteq> [] \<longrightarrow>
                    (\<forall>fq \<in> set (children (ev example_tree e)).
                       expected_reward 8 example_tree fq 0.4 = Inr ((\<lambda>_. 0) fq))"
      by (simp add: example_tree_children)
    have leaf: "\<forall>e \<in> set (q_children (qu example_tree (Suc 0))).
                  children (ev example_tree e) = [] \<longrightarrow>
                  accumulated_reward 8 example_tree e 0.4 = Inr ((\<lambda>_. 11 / 6) e)"
      by (simp add: example_tree_children example_accumulated_rewards)
    from expected_reward_weighted_sum [OF some deeper leaf]
    show ?thesis by (simp add: example_tree_children example_tree_marginals)
  qed
  have q0: "expected_reward (Suc 9) example_tree 0 0.4 = Inr (17 / 12)"
  proof -
    have some: "q_children (qu example_tree 0) \<noteq> []"
      by (simp add: example_tree_children)
    have "expected_reward 9 example_tree (Suc 0) 0.4 = Inr (11 / 6)"
      using q1 by simp
    then have deeper: "\<forall>e \<in> set (q_children (qu example_tree 0)).
                    children (ev example_tree e) \<noteq> [] \<longrightarrow>
                    (\<forall>fq \<in> set (children (ev example_tree e)).
                       expected_reward 9 example_tree fq 0.4 = Inr ((\<lambda>_. 11 / 6) fq))"
      by (simp add: example_tree_children)
    have leaf: "\<forall>e \<in> set (q_children (qu example_tree 0)).
                  children (ev example_tree e) = [] \<longrightarrow>
                  accumulated_reward 9 example_tree e 0.4 = Inr ((\<lambda>_. 1) e)"
      by (simp add: example_tree_children example_accumulated_rewards)
    from expected_reward_weighted_sum [OF some deeper leaf]
    show ?thesis by (simp add: example_tree_children example_tree_marginals)
  qed
  from q1 q0 show ?thesis by simp
qed

section \<open>Question cluster index (question_clustering.py)\<close>

text \<open>\<open>d[k] = v\<close> keeps the position of a key the dictionary has and appends a new one;
  \<open>d.update(other)\<close> stores the items of \<open>other\<close> in order.\<close>

fun dict_set :: "('k, 'v) dict \<Rightarrow> 'k \<Rightarrow> 'v \<Rightarrow> ('k, 'v) dict" where
  "dict_set [] k v = [(k, v)]"
| "dict_set ((k', v') # d) k v = (if k' = k then (k, v) # d else (k', v') # dict_set d k v)"

definition dict_update :: "('k, 'v) dict \<Rightarrow> ('k, 'v) dict \<Rightarrow> ('k, 'v) dict" where
  "dict_update d other = fold (\<lambda>(k, v) acc. dict_set acc k v) other d"

text \<open>A comprehension whose items may raise: the first exception ends it.\<close>

primrec map_results :: "('a \<Rightarrow> error + 'b) \<Rightarrow> 'a list \<Rightarrow> error + 'b list" where
  "map_results f [] = Inr []"
| "map_results f (x # xs) =
     (case f x of
        Inl e \<Rightarrow> Inl e
      | Inr y \<Rightarrow> (case map_results f xs of Inl e \<Rightarrow> Inl e | Inr ys \<Rightarrow> Inr (y # ys)))"

text \<open>
  \<open>Cluster\<close>, lines 12 to 39.  The lock is left out: the model runs one coroutine at a
  time.  Where the source turns a set into a list the order is the one of the
  dictionary the set was built from.
\<close>

record Cluster =
  questions :: "(string, nat) dict"
  likelihoods :: "(string, (string, real) dict) dict"

definition get_hypotheses :: "Cluster \<Rightarrow> string list" where
  "get_hypotheses c = keys (likelihoods c)"

definition get_answers :: "Cluster \<Rightarrow> error + string list" where
  "get_answers c =
     (case dict_values (likelihoods c) of
        [] \<Rightarrow> Inr []
      | first_answers # others \<Rightarrow>
          if list_all (\<lambda>answers. set (keys answers) = set (keys first_answers)) others
          then Inr (remdups (keys first_answers))
          else Inl AssertionError)"

definition get_likelihoods_for_answer :: "Cluster \<Rightarrow> string \<Rightarrow> error + (string, real) dict" where
  "get_likelihoods_for_answer c a =
     map_results (\<lambda>(hypo, hypo_likelihoods).
                    case map_of hypo_likelihoods a of
                      None \<Rightarrow> Inl KeyError
                    | Some l \<Rightarrow> Inr (hypo, l))
                 (likelihoods c)"

text \<open>
  Modelled from the spec: the nearest-neighbour index of section 6, supporting
  \<open>insert(vector) -> id\<close> and \<open>queryNearest(vector) -> (id, distance)\<close>.  The source uses
  the \<open>Index\<close> of the voyager library with the cosine space, which is not part of the
  repository.  Here the index keeps its vectors in a list, the id of a vector is its
  position, \<open>space\<close> is the distance of the index, and \<open>query\<close> returns the first
  vector of least distance (an exact search); a query on an empty index raises.
\<close>

record 'e Index =
  space :: "'e \<Rightarrow> 'e \<Rightarrow> real"
  items :: "'e list"

definition add_item :: "'e Index \<Rightarrow> 'e \<Rightarrow> nat \<times> 'e Index" where
  "add_item ix e = (length (items ix), ix\<lparr>items := items ix @ [e]\<rparr>)"

primrec nearest :: "('e \<Rightarrow> real) \<Rightarrow> 'e list \<Rightarrow> nat \<Rightarrow> nat \<times> real \<Rightarrow> nat \<times> real" where
  "nearest d [] i best = best"
| "nearest d (x # xs) i best = nearest d xs (Suc i) (if d x < snd best then (i, d x) else best)"

definition query :: "'e Index \<Rightarrow> 'e \<Rightarrow> error + (nat list \<times> real list)" where
  "query ix e =
     (case items ix of
        [] \<Rightarrow> Inl RecallError
      | x # xs \<Rightarrow>
          (let (i, d) = nearest (space ix e) xs (Suc 0) (0, space ix e x) in Inr ([i], [d])))"

text \<open>
  \<open>QuestionClustering\<close>, lines 42 to 77.  The keys of \<open>clusters\<close> are the ids
  themselves (the source keys by the decimal string of the id).  A \<open>Cluster\<close> object is
  stored under one key only, so the key stands for the object: \<open>get_cluster\<close> returns the
  key, and \<open>cluster_at\<close> reads the object.  \<open>encode\<close> is the sentence encoder of
  globals.py.
\<close>

record 'e QuestionClustering =
  index :: "'e Index"
  clusters :: "(nat, Cluster) dict"
  threshold :: real

definition get_cluster ::
  "(string \<Rightarrow> 'e) \<Rightarrow> 'e QuestionClustering \<Rightarrow> string \<Rightarrow> (error + nat) \<times> 'e QuestionClustering" where
  "get_cluster encode qc question_text =
     (let embedding = encode question_text in
      case (if length (clusters qc) \<ge> 1 then query (index qc) embedding else Inr ([], [])) of
        Inl e \<Rightarrow> (Inl e, qc)
      | Inr (neighbours, distances) \<Rightarrow>
          (case (case neighbours of
                   [] \<Rightarrow> Inr None
                 | n # _ \<Rightarrow>
                     (case distances of
                        [] \<Rightarrow> Inl IndexError
                      | d # _ \<Rightarrow> Inr (if 1 - d \<ge> threshold qc then Some n else None))) of
             Inl e \<Rightarrow> (Inl e, qc)
           | Inr (Some n) \<Rightarrow>
               (case map_of (clusters qc) n of
                  None \<Rightarrow> (Inl KeyError, qc)
                | Some best_cluster \<Rightarrow>
                    (Inr n,
                     qc\<lparr>clusters :=
                          dict_set (clusters qc) n
                            (best_cluster\<lparr>questions :=
                               dict_set (questions best_cluster) question_text
                                 (dict_get (questions best_cluster) question_text 0 + 1)\<rparr>)\<rparr>))
           | Inr None \<Rightarrow>
               (let (idx, index') = add_item (index qc) embedding;
                    new_cluster = \<lparr>questions = [(question_text, 1)], likelihoods = []\<rparr>
                in (Inr idx,
                    qc\<lparr>index := index', clusters := dict_set (clusters qc) idx new_cluster\<rparr>))))"

definition cluster_at :: "'e QuestionClustering \<Rightarrow> nat \<Rightarrow> Cluster" where
  "cluster_at qc cid = dict_get (clusters qc) cid \<lparr>questions = [], likelihoods = []\<rparr>"

text \<open>Every cluster has its vector in the index and every vector its cluster.\<close>

definition in_sync :: "'e QuestionClustering \<Rightarrow> bool" where
  "in_sync qc = (set (keys (clusters qc)) = {..< length (items (index qc))})"

section \<open>Tree expansion driver (method.py)\<close>

text \<open>
  The collaborators of a task are functions of an outside world \<open>'w\<close> that they may
  change; they read the tree and do not change it.  \<open>calls\<close> records the requests made
  to them, in order, and \<open>raised\<close> the exceptions they answered with.  The state of the
  engine is kept when an exception is raised: the result of a step is the exception, if
  any, and the state it leaves.
\<close>

datatype call =
    CreateQuestions ref
  | GetLikelihoods string "string list" "string list"
  | GetAnswer ref

record ('e, 'w) engine =
  nodes :: tree
  question_clustering :: "'e QuestionClustering"
  world :: 'w
  calls :: "call list"
  raised :: "error list"

record 'w TreeTask = task_settings +
  create_initial_belief_state :: "'w \<Rightarrow> (error + (string, real) dict) \<times> 'w"
  create_questions :: "tree \<Rightarrow> ref \<Rightarrow> 'w \<Rightarrow> (error + (string, string list) dict) \<times> 'w"
  get_likelihoods ::
    "string \<Rightarrow> string list \<Rightarrow> string list \<Rightarrow> 'w
       \<Rightarrow> (error + (string, (string, real) dict) dict) \<times> 'w"
  get_answer :: "tree \<Rightarrow> ref \<Rightarrow> 'w \<Rightarrow> (error + ref) \<times> 'w"

text \<open>
  The loop of lines 124 to 139, over the answers that are left; \<open>n\<close> is
  \<open>len(answers)\<close>, and \<open>1 / len(answers)\<close> raises when it is zero.
\<close>

definition append_evidence :: "tree \<Rightarrow> ref \<Rightarrow> EvidenceNode \<Rightarrow> tree" where
  "append_evidence t q node =
     t\<lparr>evidence_nodes := evidence_nodes t @ [node],
       question_nodes :=
         (question_nodes t)[q := (qu t q)\<lparr>q_children := q_children (qu t q)
                                                          @ [length (evidence_nodes t)]\<rparr>]\<rparr>"

primrec create_evidence_nodes ::
  "Cluster \<Rightarrow> ref \<Rightarrow> real \<Rightarrow> real \<Rightarrow> nat \<Rightarrow> string list \<Rightarrow> tree \<Rightarrow> error option \<times> tree" where
  "create_evidence_nodes cluster q min_probability ec n [] t = (None, t)"
| "create_evidence_nodes cluster q min_probability ec n (a # remaining) t =
     (case get_likelihoods_for_answer cluster a of
        Inl e \<Rightarrow> (Some e, t)
      | Inr lik \<Rightarrow>
          if n = 0 then (Some ZeroDivisionError, t)
          else
            (case calculate_posterior (belief_state (ev t (q_parent (qu t q)))) lik
                    min_probability (1 / real n) ec of
               Inl e \<Rightarrow> (Some e, t)
             | Inr (posterior, marginal) \<Rightarrow>
                 create_evidence_nodes cluster q min_probability ec n remaining
                   (append_evidence t q
                      \<lparr>answer = a, belief_state = posterior, marginal_likelihood = marginal,
                       parent = Some q, children = []\<rparr>)))"

text \<open>
  \<open>expand_questions\<close>, lines 106 to 122: the cluster of the question, the answers it
  resolves to and the likelihoods of the hypotheses the cluster does not have yet.
\<close>

definition set_possible_answers :: "tree \<Rightarrow> ref \<Rightarrow> string list \<Rightarrow> tree" where
  "set_possible_answers t q answers =
     t\<lparr>question_nodes := (question_nodes t)[q := (qu t q)\<lparr>possible_answers := answers\<rparr>]\<rparr>"

definition set_cluster_likelihoods ::
  "'e QuestionClustering \<Rightarrow> nat \<Rightarrow> (string, (string, real) dict) dict \<Rightarrow> 'e QuestionClustering" where
  "set_cluster_likelihoods qc cid new_likelihoods =
     qc\<lparr>clusters :=
          dict_set (clusters qc) cid
            ((cluster_at qc cid)\<lparr>likelihoods :=
               dict_update (likelihoods (cluster_at qc cid)) new_likelihoods\<rparr>)\<rparr>"

definition resolve_cluster ::
  "(string \<Rightarrow> 'e) \<Rightarrow> ('w, 'x) TreeTask_scheme \<Rightarrow> ref \<Rightarrow> ('e, 'w) engine
     \<Rightarrow> (error + nat \<times> string list) \<times> ('e, 'w) engine" where
  "resolve_cluster encode task current_node st =
     (case get_cluster encode (question_clustering st) (question (qu (nodes st) current_node)) of
        (Inl e, qc) \<Rightarrow> (Inl e, st\<lparr>question_clustering := qc\<rparr>)
      | (Inr cid, qc) \<Rightarrow>
          (let st1 = st\<lparr>question_clustering := qc\<rparr>;
               cluster = cluster_at qc cid
           in case get_answers cluster of
                Inl e \<Rightarrow> (Inl e, st1)
              | Inr cached \<Rightarrow>
                  (let st2 = (if cached \<noteq> []
                              then st1\<lparr>nodes := set_possible_answers (nodes st1) current_node cached\<rparr>
                              else st1);
                       answers = (if cached \<noteq> [] then cached
                                  else possible_answers (qu (nodes st1) current_node));
                       missing_hypotheses =
                         filter (\<lambda>h. h \<notin> set (get_hypotheses cluster))
                           (remdups (keys (belief_state
                              (ev (nodes st2) (q_parent (qu (nodes st2) current_node))))))
                   in if missing_hypotheses \<noteq> [] then
                        (case get_likelihoods task (question (qu (nodes st2) current_node))
                                answers missing_hypotheses (world st2) of
                           (Inl e, w) \<Rightarrow>
                             (Inl e,
                              st2\<lparr>world := w,
                                  calls := calls st2
                                    @ [GetLikelihoods (question (qu (nodes st2) current_node))
                                         answers missing_hypotheses],
                                  raised := raised st2 @ [e]\<rparr>)
                         | (Inr new_likelihoods, w) \<Rightarrow>
                             (Inr (cid, answers),
                              st2\<lparr>world := w,
                                  calls := calls st2
                                    @ [GetLikelihoods (question (qu (nodes st2) current_node))
                                         answers missing_hypotheses],
                                  question_clustering :=
                                    set_cluster_likelihoods qc cid new_likelihoods\<rparr>))
                      else (Inr (cid, answers), st2))))"

text \<open>\<open>expand_questions\<close>, lines 105 to 139: the children of a question node without any.\<close>

definition expand_questions_children ::
  "(string \<Rightarrow> 'e) \<Rightarrow> ('w, 'x) TreeTask_scheme \<Rightarrow> real \<Rightarrow> ref \<Rightarrow> ('e, 'w) engine
     \<Rightarrow> error option \<times> ('e, 'w) engine" where
  "expand_questions_children encode task min_probability current_node st =
     (if q_children (qu (nodes st) current_node) \<noteq> [] then (None, st)
      else
        case resolve_cluster encode task current_node st of
          (Inl e, st1) \<Rightarrow> (Some e, st1)
        | (Inr (cid, answers), st1) \<Rightarrow>
            (case create_evidence_nodes
                    (cluster_at (question_clustering st1) cid) current_node
                    min_probability (estimator_confidence task)
                    (length answers) answers (nodes st1) of
               (err, t') \<Rightarrow> (err, st1\<lparr>nodes := t'\<rparr>)))"

text \<open>
  \<open>asyncio.gather\<close> over the children.  It starts every child, hands the first exception
  to its caller and does not cancel the other children: they run on.  Here the children
  run one after the other, in order and each to its end, also behind a child that has
  raised, and the result is the first exception.  The interleaving of the coroutines is
  not modelled: how far the other children have come when the caller resumes depends on
  the scheduling.
\<close>

primrec gather :: "('a \<Rightarrow> 's \<Rightarrow> error option \<times> 's) \<Rightarrow> 'a list \<Rightarrow> 's \<Rightarrow> error option \<times> 's" where
  "gather f [] st = (None, st)"
| "gather f (x # xs) st =
     (case f x st of
        (first, st') \<Rightarrow>
          (case gather f xs st' of
             (later, st'') \<Rightarrow> (case first of Some e \<Rightarrow> Some e | None \<Rightarrow> later, st'')))"

lemma gather_cong [fundef_cong]:
  "xs = ys \<Longrightarrow> st = st' \<Longrightarrow> (\<And>x s. x \<in> set ys \<Longrightarrow> f x s = g x s)
     \<Longrightarrow> gather f xs st = gather g ys st'"
proof -
  assume eq: "xs = ys" "st = st'" and fg: "\<And>x s. x \<in> set ys \<Longrightarrow> f x s = g x s"
  have "gather f ys s = gather g ys s" for s
    using fg by (induction ys arbitrary: s) (auto split: prod.splits option.splits)
  with eq show ?thesis by simp
qed

text \<open>\<open>expand_evidence\<close> (lines 70 to 95) and \<open>expand_questions\<close> (lines 98 to 148).\<close>

definition add_question_nodes :: "tree \<Rightarrow> ref \<Rightarrow> (string, string list) dict \<Rightarrow> tree" where
  "add_question_nodes t current_node new_questions =
     t\<lparr>question_nodes :=
         question_nodes t
         @ map (\<lambda>(q, answers).
                  \<lparr>question = q, possible_answers = answers,
                   q_parent = current_node, q_children = []\<rparr>) new_questions,
       evidence_nodes :=
         (evidence_nodes t)
           [current_node :=
              (ev t current_node)
                \<lparr>children := children (ev t current_node)
                     @ [length (question_nodes t) ..<
                        length (question_nodes t) + length new_questions]\<rparr>]\<rparr>"

function expand_evidence ::
    "nat \<Rightarrow> (string \<Rightarrow> 'e) \<Rightarrow> ('w, 'x) TreeTask_scheme \<Rightarrow> real \<Rightarrow> ref \<Rightarrow> int \<Rightarrow> ('e, 'w) engine
       \<Rightarrow> error option \<times> ('e, 'w) engine"
  and expand_questions ::
    "nat \<Rightarrow> (string \<Rightarrow> 'e) \<Rightarrow> ('w, 'x) TreeTask_scheme \<Rightarrow> real \<Rightarrow> ref \<Rightarrow> int \<Rightarrow> ('e, 'w) engine
       \<Rightarrow> error option \<times> ('e, 'w) engine" where
  "expand_evidence limit encode task min_probability current_node current_depth st =
     (case is_terminal limit (nodes st) task current_node of
        Inl e \<Rightarrow> (Some e, st)
      | Inr terminal \<Rightarrow>
          if terminal \<or> current_depth \<ge> max_lookahead_depth task then (None, st)
          else
            (case (if children (ev (nodes st) current_node) = [] then
                     (case create_questions task (nodes st) current_node (world st) of
                        (Inl e, w) \<Rightarrow>
                          (Some e,
                           st\<lparr>world := w, calls := calls st @ [CreateQuestions current_node],
                              raised := raised st @ [e]\<rparr>)
                      | (Inr new_questions, w) \<Rightarrow>
                          (None,
                           st\<lparr>world := w, calls := calls st @ [CreateQuestions current_node],
                              nodes := add_question_nodes (nodes st) current_node new_questions\<rparr>))
                   else (None, st)) of
               (Some e, st1) \<Rightarrow> (Some e, st1)
             | (None, st1) \<Rightarrow>
                 gather (\<lambda>child. expand_questions limit encode task min_probability child current_depth)
                        (children (ev (nodes st1) current_node)) st1))"
| "expand_questions limit encode task min_probability current_node current_depth st =
     (case expand_questions_children encode task min_probability current_node st of
        (Some e, st1) \<Rightarrow> (Some e, st1)
      | (None, st1) \<Rightarrow>
          gather (\<lambda>child. expand_evidence limit encode task min_probability child (current_depth + 1))
                 (q_children (qu (nodes st1) current_node)) st1)"
  by pat_completeness auto
termination
  by (relation "measure (\<lambda>x. case x of
          Inl (limit, encode, task, min_probability, current_node, current_depth, st) \<Rightarrow>
            2 * nat (max_lookahead_depth task - current_depth)
        | Inr (limit, encode, task, min_probability, current_node, current_depth, st) \<Rightarrow>
            2 * nat (max_lookahead_depth task - (current_depth + 1)) + 1)") auto

section \<open>Top-level run loop (method.py, history.py)\<close>

text \<open>
  \<open>str(node)\<close> prints the answer, the marginal likelihood and the belief state of an
  evidence node, and the question and the possible answers of a question node; the
  model keeps the printed values.
\<close>

datatype node_str =
    EvidenceStr string real "(string, real) dict"
  | QuestionStr string "string list"

definition str_evidence :: "EvidenceNode \<Rightarrow> node_str" where
  "str_evidence e = EvidenceStr (answer e) (marginal_likelihood e) (belief_state e)"

definition str_question :: "QuestionNode \<Rightarrow> node_str" where
  "str_question q = QuestionStr (question q) (possible_answers q)"

text \<open>\<open>serialise_evidence_node\<close> and \<open>serialise_question_node\<close>, history.py lines 27 to 43.\<close>

datatype SerialisedEvidenceNode =
    SerialisedEvidence string "(string, real) dict" real "SerialisedQuestionNode list"
and SerialisedQuestionNode =
    SerialisedQuestion string "string list" "SerialisedEvidenceNode list"

fun serialise_evidence_node :: "nat \<Rightarrow> tree \<Rightarrow> ref \<Rightarrow> error + SerialisedEvidenceNode"
  and serialise_question_node :: "nat \<Rightarrow> tree \<Rightarrow> ref \<Rightarrow> error + SerialisedQuestionNode" where
  "serialise_evidence_node 0 t node = Inl RecursionError"
| "serialise_evidence_node (Suc limit) t node =
     (case map_results (\<lambda>child. serialise_question_node limit t child) (children (ev t node)) of
        Inl e \<Rightarrow> Inl e
      | Inr cs \<Rightarrow>
          Inr (SerialisedEvidence (answer (ev t node)) (belief_state (ev t node))
                 (marginal_likelihood (ev t node)) cs))"
| "serialise_question_node 0 t node = Inl RecursionError"
| "serialise_question_node (Suc limit) t node =
     (case map_results (\<lambda>child. serialise_evidence_node limit t child) (q_children (qu t node)) of
        Inl e \<Rightarrow> Inl e
      | Inr cs \<Rightarrow>
          Inr (SerialisedQuestion (question (qu t node)) (possible_answers (qu t node)) cs))"


text \<open>The local variables of \<open>run_task\<close> that the loop changes.\<close>

record ('e, 'w) run_state =
  engine_state :: "('e, 'w) engine"
  current :: ref
  path :: "node_str list"

text \<open>\<open>max(xs, key=...)\<close>: the first element of greatest key; \<open>ValueError\<close> on an empty list.\<close>

primrec max_by_loop :: "('a \<Rightarrow> error + real) \<Rightarrow> 'a list \<Rightarrow> 'a \<Rightarrow> real \<Rightarrow> error + 'a" where
  "max_by_loop key_of [] best best_key = Inr best"
| "max_by_loop key_of (x # xs) best best_key =
     (case key_of x of
        Inl e \<Rightarrow> Inl e
      | Inr k \<Rightarrow> if k > best_key then max_by_loop key_of xs x k
                 else max_by_loop key_of xs best best_key)"

definition max_by :: "('a \<Rightarrow> error + real) \<Rightarrow> 'a list \<Rightarrow> error + 'a" where
  "max_by key_of xs =
     (case xs of
        [] \<Rightarrow> Inl ValueError
      | x # others \<Rightarrow>
          (case key_of x of Inl e \<Rightarrow> Inl e | Inr k \<Rightarrow> max_by_loop key_of others x k))"

text \<open>The body of the \<open>while\<close> loop, lines 32 to 47.\<close>

definition loop_body ::
  "nat \<Rightarrow> (string \<Rightarrow> 'e) \<Rightarrow> ('w, 'x) TreeTask_scheme \<Rightarrow> real \<Rightarrow> real \<Rightarrow> ('e, 'w) run_state
     \<Rightarrow> error option \<times> ('e, 'w) run_state" where
  "loop_body limit encode task sharpness_constant min_probability rs =
     (case expand_evidence limit encode task min_probability (current rs) 0 (engine_state rs) of
        (Some e, st) \<Rightarrow> (Some e, rs\<lparr>engine_state := st\<rparr>)
      | (None, st) \<Rightarrow>
          (case max_by (\<lambda>q. expected_reward limit (nodes st) q sharpness_constant)
                       (children (ev (nodes st) (current rs))) of
             Inl e \<Rightarrow> (Some e, rs\<lparr>engine_state := st\<rparr>)
           | Inr best_question_node \<Rightarrow>
               (let path1 = path rs @ [str_question (qu (nodes st) best_question_node)];
                    calls1 = calls st @ [GetAnswer best_question_node]
                in case get_answer task (nodes st) best_question_node (world st) of
                     (Inl e, w) \<Rightarrow>
                       (Some e, rs\<lparr>engine_state := st\<lparr>world := w, calls := calls1,
                                                        raised := raised st @ [e]\<rparr>,
                                   path := path1\<rparr>)
                   | (Inr selected_evidence_node, w) \<Rightarrow>
                       (None, rs\<lparr>engine_state := st\<lparr>world := w, calls := calls1\<rparr>,
                                 current := selected_evidence_node,
                                 path := path1 @ [str_evidence (ev (nodes st) selected_evidence_node)]\<rparr>))))"


text \<open>Lines 21 to 28: the root, the current node and the path.\<close>

definition initial_run_state ::
  "(string, real) dict \<Rightarrow> 'e QuestionClustering \<Rightarrow> 'w \<Rightarrow> ('e, 'w) run_state" where
  "initial_run_state initial_belief_state qc w =
     (let root = \<lparr>answer = ''ROOT'', belief_state = initial_belief_state,
                  marginal_likelihood = 1, parent = None, children = []\<rparr>
      in \<lparr>engine_state = \<lparr>nodes = \<lparr>evidence_nodes = [root], question_nodes = []\<rparr>,
                           question_clustering = qc, world = w, calls = [], raised = []\<rparr>,
          current = 0,
          path = [str_evidence root]\<rparr>)"



text \<open>The node the question phase creates for one answer, with the uniform likelihood
  \<open>1 / n\<close>.\<close>

definition evidence_for ::
  "Cluster \<Rightarrow> (string, real) dict \<Rightarrow> real \<Rightarrow> real \<Rightarrow> nat \<Rightarrow> ref \<Rightarrow> string \<Rightarrow> error + EvidenceNode" where
  "evidence_for cluster prior min_probability ec n q a =
     (case get_likelihoods_for_answer cluster a of
        Inl e \<Rightarrow> Inl e
      | Inr lik \<Rightarrow>
          (case calculate_posterior prior lik min_probability (1 / real n) ec of
             Inl e \<Rightarrow> Inl e
           | Inr (posterior, marginal) \<Rightarrow>
               Inr \<lparr>answer = a, belief_state = posterior, marginal_likelihood = marginal,
                    parent = Some q, children = []\<rparr>))"

subsection \<open>Examples\<close>

text \<open>
  The embedding of a text is the text, and two embeddings are at distance zero when
  they are equal and one otherwise.  The task has the hypotheses \<open>A\<close> and \<open>B\<close>, asks
  the same question at every node, and estimates likelihood \<open>3/4\<close> for the right answer
  and \<open>1/4\<close> for the wrong one; its world counts the answers given: the answerer picks
  the first answer once and fails from then on.
\<close>

definition example_space :: "string \<Rightarrow> string \<Rightarrow> real" where
  "example_space a b = (if a = b then 0 else 1)"

definition empty_clustering :: "string QuestionClustering" where
  "empty_clustering = \<lparr>index = \<lparr>space = example_space, items = []\<rparr>, clusters = [], threshold = 1\<rparr>"

definition example_task :: "nat TreeTask" where
  "example_task =
     \<lparr>max_lookahead_depth = 1, max_conversation_depth = 2,
      confidence_threshold = 0.8, estimator_confidence = 1,
      create_initial_belief_state = (\<lambda>w. (Inr [(''A'', 1 / 2), (''B'', 1 / 2)], w)),
      create_questions = (\<lambda>t n w. (Inr [(''Is it A?'', [''Yes'', ''No''])], w)),
      get_likelihoods =
        (\<lambda>q answers hs w.
           (Inr (map (\<lambda>h. (h, map (\<lambda>a. (a, if (h = ''A'') = (a = ''Yes'') then 3 / 4 else 1 / 4))
                                   answers)) hs),
            w)),
      get_answer =
        (\<lambda>t q w. if w = 0
                   then (case q_children (qu t q) of
                           [] \<Rightarrow> Inl (CollaboratorError ''no answer'')
                         | c # _ \<Rightarrow> Inr c, Suc w)
                   else (Inl (CollaboratorError ''answerer failed''), w))\<rparr>"

definition example_limit :: nat where
  "example_limit = Suc (Suc (Suc (Suc (Suc (Suc 0)))))"

text \<open>A question that has not been expanded, in a cluster that has the likelihoods of
  \<open>A\<close> only.\<close>

definition unexpanded_state :: "(string, nat) engine" where
  "unexpanded_state =
     \<lparr>nodes = unexpanded_tree,
      question_clustering =
        \<lparr>index = \<lparr>space = example_space, items = [''Is it A?'']\<rparr>,
         clusters = [(0, \<lparr>questions = [(''Is it A?'', 1)],
                          likelihoods = [(''A'', [(''Yes'', 3 / 4), (''No'', 1 / 4)])]\<rparr>)],
         threshold = 1\<rparr>,
      world = 0, calls = [], raised = []\<rparr>"

text \<open>
  An index that does not find a vector at distance zero from itself: the distance of a
  vector to its own copy is \<open>2\<^sup>-\<^sup>2\<^sup>3\<close>, as a cosine distance computed in single precision
  may be.
\<close>

definition noisy_space :: "string \<Rightarrow> string \<Rightarrow> real" where
  "noisy_space a b = (if a = b then 1 / 2 ^ 23 else 1)"

definition noisy_clustering :: "string QuestionClustering" where
  "noisy_clustering = \<lparr>index = \<lparr>space = noisy_space, items = []\<rparr>, clusters = [], threshold = 1\<rparr>"

text \<open>A root with the same question twice, neither expanded, and no cluster yet.\<close>

definition twice_asked_state :: "(string, nat) engine" where
  "twice_asked_state =
     \<lparr>nodes =
        \<lparr>evidence_nodes =
           [\<lparr>answer = ''ROOT'', belief_state = [(''A'', 1 / 2), (''B'', 1 / 2)],
             marginal_likelihood = 1, parent = None, children = [0, 1]\<rparr>],
         question_nodes =
           [\<lparr>question = ''Is it A?'', possible_answers = [''Yes'', ''No''],
             q_parent = 0, q_children = []\<rparr>,
            \<lparr>question = ''Is it A?'', possible_answers = [''Yes'', ''No''],
             q_parent = 0, q_children = []\<rparr>]\<rparr>,
      question_clustering = empty_clustering,
      world = 0, calls = [], raised = []\<rparr>"

text \<open>A question without possible answers, and no cluster yet.\<close>

definition no_answers_state :: "(string, nat) engine" where
  "no_answers_state =
     \<lparr>nodes =
        \<lparr>evidence_nodes =
           [\<lparr>answer = ''ROOT'', belief_state = [(''A'', 1 / 2), (''B'', 1 / 2)],
             marginal_likelihood = 1, parent = None, children = [0]\<rparr>],
         question_nodes =
           [\<lparr>question = ''Is it A?'', possible_answers = [],
             q_parent = 0, q_children = []\<rparr>]\<rparr>,
      question_clustering = empty_clustering,
      world = 0, calls = [], raised = []\<rparr>"

subsection \<open>Dictionaries and the index\<close>

lemma map_of_dict_set_same: "map_of (dict_set d k v) k = Some v"
  by (induction d) auto

lemma map_of_dict_set_other: "k' \<noteq> k \<Longrightarrow> map_of (dict_set d k v) k' = map_of d k'"
  by (induction d) auto

lemma dict_set_nonempty: "dict_set d k v \<noteq> []"
  by (cases d) (auto split: if_splits)

lemma keys_dict_set: "set (keys (dict_set d k v)) = insert k (set (keys d))"
proof (induction d)
  case Nil
  then show ?case by (simp add: keys_def)
next
  case (Cons x d)
  obtain k' v' where x: "x = (k', v')" by (cases x)
  show ?case
  proof (cases "k' = k")
    case True
    then show ?thesis by (simp add: x keys_def)
  next
    case False
    with Cons show ?thesis by (simp add: x keys_def insert_commute)
  qed
qed

lemma dict_set_fresh: "k \<notin> set (keys d) \<Longrightarrow> dict_set d k v = d @ [(k, v)]"
  by (induction d) (auto simp: keys_def)

lemma map_of_keys: "k \<in> set (keys d) \<Longrightarrow> \<exists>v. map_of d k = Some v"
  by (induction d) (auto simp: keys_def)

lemma nearest_fst_snd:
  "nearest f xs i best = best \<or>
   (\<exists>j < length xs. nearest f xs i best = (i + j, f (xs ! j)))"
proof (induction xs arbitrary: i best)
  case Nil
  then show ?case by simp
next
  case (Cons x xs)
  let ?b = "if f x < snd best then (i, f x) else best"
  from Cons.IH [of "Suc i" ?b]
  show ?case
  proof
    assume "nearest f xs (Suc i) ?b = ?b"
    then show ?thesis by (cases "f x < snd best") (auto intro: exI [of _ 0])
  next
    assume "\<exists>j<length xs. nearest f xs (Suc i) ?b = (Suc i + j, f (xs ! j))"
    then obtain j where "j < length xs" "nearest f xs (Suc i) ?b = (Suc i + j, f (xs ! j))" by blast
    then show ?thesis by (auto intro!: exI [of _ "Suc j"])
  qed
qed

lemma nearest_le_best: "snd (nearest f xs i best) \<le> snd best"
proof (induction xs arbitrary: i best)
  case Nil
  then show ?case by simp
next
  case (Cons x xs)
  have "snd (nearest f xs (Suc i) (if f x < snd best then (i, f x) else best))
          \<le> snd (if f x < snd best then (i, f x) else best)"
    by (rule Cons.IH)
  then show ?case by (auto split: if_splits)
qed

lemma nearest_le_all: "x \<in> set xs \<Longrightarrow> snd (nearest f xs i best) \<le> f x"
proof (induction xs arbitrary: i best)
  case Nil
  then show ?case by simp
next
  case (Cons y ys)
  show ?case
  proof (cases "x = y")
    case True
    have "snd (nearest f ys (Suc i) (if f y < snd best then (i, f y) else best))
            \<le> snd (if f y < snd best then (i, f y) else best)"
      by (rule nearest_le_best)
    with True show ?thesis by (auto split: if_splits)
  next
    case False
    with Cons.prems have "x \<in> set ys" by simp
    then show ?thesis by (simp add: Cons.IH)
  qed
qed

lemma nearest_append_new:
  assumes "snd (nearest f xs i best) > f e"
  shows "nearest f (xs @ [e]) i best = (i + length xs, f e)"
  using assms
proof (induction xs arbitrary: i best)
  case Nil
  then show ?case by simp
next
  case (Cons x xs)
  then show ?case by simp
qed

lemma nearest_keeps_least:
  "\<forall>x \<in> set xs. snd best \<le> f x \<Longrightarrow> nearest f xs i best = best"
  by (induction xs arbitrary: i) auto

lemma query_empty: "items ix = [] \<Longrightarrow> query ix e = Inl RecallError"
  by (simp add: query_def)

lemma query_result:
  assumes "items ix \<noteq> []"
  shows "\<exists>n d. query ix e = Inr ([n], [d]) \<and> n < length (items ix)
               \<and> d = space ix e (items ix ! n)
               \<and> (\<forall>x \<in> set (items ix). d \<le> space ix e x)"
proof -
  from assms obtain x xs where items: "items ix = x # xs" by (cases "items ix") auto
  let ?f = "space ix e"
  obtain n d where nd: "nearest ?f xs (Suc 0) (0, ?f x) = (n, d)" by (cases "nearest ?f xs (Suc 0) (0, ?f x)")
  have q: "query ix e = Inr ([n], [d])" by (simp add: query_def items nd)
  from nearest_fst_snd [of ?f xs "Suc 0" "(0, ?f x)"]
  have pos: "n < length (items ix) \<and> d = ?f (items ix ! n)"
    unfolding nd items by auto
  have "d \<le> ?f x" using nearest_le_best [of ?f xs "Suc 0" "(0, ?f x)"] by (simp add: nd)
  moreover have "\<forall>y \<in> set xs. d \<le> ?f y"
    using nearest_le_all [of _ xs ?f "Suc 0" "(0, ?f x)"] by (simp add: nd)
  ultimately have "\<forall>y \<in> set (items ix). d \<le> ?f y" by (simp add: items)
  with q pos show ?thesis by blast
qed

lemma query_after_add:
  assumes far: "items ix = [] \<or> (\<exists>n d. query ix e = Inr ([n], [d]) \<and> space ix e e < d)"
  shows "query (ix\<lparr>items := items ix @ [e]\<rparr>) e = Inr ([length (items ix)], [space ix e e])"
proof (cases "items ix")
  case Nil
  then show ?thesis by (simp add: query_def)
next
  case (Cons x xs)
  with far obtain n d where q: "query ix e = Inr ([n], [d])" and d: "space ix e e < d" by auto
  let ?f = "space ix e"
  from q have nd: "nearest ?f xs (Suc 0) (0, ?f x) = (n, d)"
    by (simp add: query_def Cons split: prod.splits)
  then have "?f e < snd (nearest ?f xs (Suc 0) (0, ?f x))" using d by simp
  then have "nearest ?f (xs @ [e]) (Suc 0) (0, ?f x) = (Suc 0 + length xs, ?f e)"
    by (rule nearest_append_new)
  then show ?thesis by (simp add: query_def Cons)
qed

lemma get_cluster_create_empty:
  "clusters qc = [] \<Longrightarrow>
   get_cluster encode qc q =
     (Inr (length (items (index qc))),
      qc\<lparr>index := (index qc)\<lparr>items := items (index qc) @ [encode q]\<rparr>,
         clusters := dict_set (clusters qc) (length (items (index qc)))
                       \<lparr>questions = [(q, 1)], likelihoods = []\<rparr>\<rparr>)"
  by (simp add: get_cluster_def add_item_def)

lemma get_cluster_create_far:
  "clusters qc \<noteq> [] \<Longrightarrow> query (index qc) (encode q) = Inr ([n], [d])
   \<Longrightarrow> \<not> threshold qc \<le> 1 - d \<Longrightarrow>
   get_cluster encode qc q =
     (Inr (length (items (index qc))),
      qc\<lparr>index := (index qc)\<lparr>items := items (index qc) @ [encode q]\<rparr>,
         clusters := dict_set (clusters qc) (length (items (index qc)))
                       \<lparr>questions = [(q, 1)], likelihoods = []\<rparr>\<rparr>)"
  by (cases "clusters qc") (simp_all add: get_cluster_def add_item_def)

lemma get_cluster_reuse:
  "clusters qc \<noteq> [] \<Longrightarrow> query (index qc) (encode q) = Inr ([n], [d])
   \<Longrightarrow> threshold qc \<le> 1 - d \<Longrightarrow> map_of (clusters qc) n = Some c \<Longrightarrow>
   get_cluster encode qc q =
     (Inr n,
      qc\<lparr>clusters := dict_set (clusters qc) n
           (c\<lparr>questions := dict_set (questions c) q (dict_get (questions c) q 0 + 1)\<rparr>)\<rparr>)"
  by (cases "clusters qc") (simp_all add: get_cluster_def)

lemma in_sync_empty: "in_sync qc \<Longrightarrow> clusters qc = [] \<longleftrightarrow> items (index qc) = []"
  by (auto simp: in_sync_def keys_def)

lemma get_cluster_twice:
  assumes sync: "in_sync qc"
    and thr: "threshold qc \<le> 1 - space (index qc) (encode q) (encode q)"
    and same: "encode q' = encode q"
  shows "\<exists>c qc1 qc2. get_cluster encode qc q = (Inr c, qc1)
                     \<and> get_cluster encode qc1 q' = (Inr c, qc2)"
proof (cases "clusters qc = []")
  case True
  let ?s = "space (index qc) (encode q) (encode q)"
  let ?new = "\<lparr>questions = [(q, 1)], likelihoods = []\<rparr>"
  let ?ix1 = "(index qc)\<lparr>items := items (index qc) @ [encode q]\<rparr>"
  let ?qc1 = "qc\<lparr>index := ?ix1, clusters := dict_set (clusters qc) (length (items (index qc))) ?new\<rparr>"
  have first: "get_cluster encode qc q = (Inr (length (items (index qc))), ?qc1)"
    using True by (rule get_cluster_create_empty)
  have e: "items (index qc) = []" using sync True by (simp add: in_sync_empty)
  have "query ?ix1 (encode q) = Inr ([length (items (index qc))], [?s])"
    using e by (intro query_after_add) simp_all
  then have qy: "query ?ix1 (encode q') = Inr ([length (items (index qc))], [?s])"
    by (simp add: same)
  have "get_cluster encode ?qc1 q' =
          (Inr (length (items (index qc))),
           ?qc1\<lparr>clusters := dict_set (clusters ?qc1) (length (items (index qc)))
              (?new\<lparr>questions := dict_set (questions ?new) q' (dict_get (questions ?new) q' 0 + 1)\<rparr>)\<rparr>)"
    by (rule get_cluster_reuse [where d = ?s]) (use thr in \<open>simp_all add: qy dict_set_nonempty map_of_dict_set_same\<close>)
  with first show ?thesis by blast
next
  case False
  let ?s = "space (index qc) (encode q) (encode q)"
  from False have ne: "items (index qc) \<noteq> []" using sync by (simp add: in_sync_empty)
  from query_result [OF ne, of "encode q"]
  obtain n d where q1: "query (index qc) (encode q) = Inr ([n], [d])"
    and n: "n < length (items (index qc))" by blast
  from n sync have "n \<in> set (keys (clusters qc))" by (simp add: in_sync_def)
  then obtain c where c: "map_of (clusters qc) n = Some c" by (auto dest: map_of_keys)
  show ?thesis
  proof (cases "threshold qc \<le> 1 - d")
    case True
    let ?c' = "c\<lparr>questions := dict_set (questions c) q (dict_get (questions c) q 0 + 1)\<rparr>"
    let ?qc1 = "qc\<lparr>clusters := dict_set (clusters qc) n ?c'\<rparr>"
    have first: "get_cluster encode qc q = (Inr n, ?qc1)"
      using False q1 True c by (rule get_cluster_reuse)
    have qy: "query (index qc) (encode q') = Inr ([n], [d])" using q1 by (simp add: same)
    have "get_cluster encode ?qc1 q' =
            (Inr n, ?qc1\<lparr>clusters := dict_set (clusters ?qc1) n
               (?c'\<lparr>questions := dict_set (questions ?c') q' (dict_get (questions ?c') q' 0 + 1)\<rparr>)\<rparr>)"
      by (rule get_cluster_reuse [where d = d]) (use True in \<open>simp_all add: qy dict_set_nonempty map_of_dict_set_same\<close>)
    with first show ?thesis by blast
  next
    case far: False
    let ?new = "\<lparr>questions = [(q, 1)], likelihoods = []\<rparr>"
    let ?ix1 = "(index qc)\<lparr>items := items (index qc) @ [encode q]\<rparr>"
    let ?qc1 = "qc\<lparr>index := ?ix1, clusters := dict_set (clusters qc) (length (items (index qc))) ?new\<rparr>"
    have first: "get_cluster encode qc q = (Inr (length (items (index qc))), ?qc1)"
      using False q1 far by (rule get_cluster_create_far)
    from far thr have "?s < d" by simp
    with q1 have "query ?ix1 (encode q) = Inr ([length (items (index qc))], [?s])"
      by (intro query_after_add) auto
    then have qy: "query ?ix1 (encode q') = Inr ([length (items (index qc))], [?s])"
      by (simp add: same)
    have "get_cluster encode ?qc1 q' =
          (Inr (length (items (index qc))),
           ?qc1\<lparr>clusters := dict_set (clusters ?qc1) (length (items (index qc)))
              (?new\<lparr>questions := dict_set (questions ?new) q' (dict_get (questions ?new) q' 0 + 1)\<rparr>)\<rparr>)"
      by (rule get_cluster_reuse [where d = ?s]) (use thr in \<open>simp_all add: qy dict_set_nonempty map_of_dict_set_same\<close>)
    with first show ?thesis by blast
  qed
qed

lemma dict_get_dict_set_same: "dict_get (dict_set d k v) k dflt = v"
  by (simp add: dict_get_def map_of_dict_set_same)

lemma cluster_at_dict_set:
  "cluster_at (qc\<lparr>clusters := dict_set (clusters qc) n c\<rparr>) n = c"
  by (simp add: cluster_at_def dict_get_dict_set_same)

lemma keys_dict_update: "set (keys (dict_update d other)) = set (keys d) \<union> set (keys other)"
  unfolding dict_update_def
proof (induction other arbitrary: d)
  case Nil
  show ?case by (simp add: keys_def)
next
  case (Cons kv other)
  obtain k v where kv: "kv = (k, v)" by (cases kv)
  have kc: "keys (kv # other) = k # keys other" by (simp add: keys_def kv)
  have "fold (\<lambda>(k, v) acc. dict_set acc k v) (kv # other) d
          = fold (\<lambda>(k, v) acc. dict_set acc k v) other (dict_set d k v)"
    by (simp add: kv)
  then show ?case by (simp add: Cons.IH keys_dict_set kc)
qed

lemma in_sync_fresh: "in_sync qc \<Longrightarrow> length (items (index qc)) \<notin> set (keys (clusters qc))"
  by (simp add: in_sync_def)

lemma ev_set_possible_answers [simp]: "ev (set_possible_answers t q a) r = ev t r"
  by (simp add: ev_def set_possible_answers_def)

lemma qu_set_possible_answers_fields [simp]:
  "question (qu (set_possible_answers t q a) q') = question (qu t q')"
  "q_parent (qu (set_possible_answers t q a) q') = q_parent (qu t q')"
  "q_children (qu (set_possible_answers t q a) q') = q_children (qu t q')"
proof -
  have "qu (set_possible_answers t q a) q' = qu t q'
        \<or> qu (set_possible_answers t q a) q' = (qu t q')\<lparr>possible_answers := a\<rparr>"
    by (cases "q < length (question_nodes t)"; cases "q' = q")
       (simp_all add: qu_def set_possible_answers_def list_update_beyond not_less)
  then show "question (qu (set_possible_answers t q a) q') = question (qu t q')"
    "q_parent (qu (set_possible_answers t q a) q') = q_parent (qu t q')"
    "q_children (qu (set_possible_answers t q a) q') = q_children (qu t q')"
    by auto
qed

lemma resolve_cluster_requests:
  assumes res: "resolve_cluster encode task q st = (r, st')"
    and gc: "get_cluster encode (question_clustering st) (question (qu (nodes st) q)) = (Inr cid, qc)"
  shows "calls st' = calls st
         \<or> (\<exists>answers hs.
               calls st' = calls st @ [GetLikelihoods (question (qu (nodes st) q)) answers hs]
               \<and> hs \<noteq> []
               \<and> set hs = set (keys (belief_state (ev (nodes st) (q_parent (qu (nodes st) q)))))
                           - set (get_hypotheses (cluster_at qc cid)))"
  using res unfolding resolve_cluster_def gc
  by (auto simp: Let_def split: sum.splits prod.splits if_splits)

lemma resolve_cluster_stores:
  assumes res: "resolve_cluster encode task cur st = (Inr (cid, answers), st1)"
  shows "\<exists>qc1. get_cluster encode (question_clustering st) (question (qu (nodes st) cur))
                  = (Inr cid, qc1)
           \<and> ((question_clustering st1 = qc1 \<and> calls st1 = calls st)
              \<or> (\<exists>hs new w.
                    calls st1 = calls st @ [GetLikelihoods (question (qu (nodes st) cur)) answers hs]
                    \<and> get_likelihoods task (question (qu (nodes st) cur)) answers hs (world st)
                        = (Inr new, w)
                    \<and> likelihoods (cluster_at (question_clustering st1) cid)
                        = dict_update (likelihoods (cluster_at qc1 cid)) new))"
  using res unfolding resolve_cluster_def
  by (auto simp: Let_def set_cluster_likelihoods_def cluster_at_dict_set
           split: sum.splits prod.splits if_splits)

subsection \<open>The children of a question\<close>

lemma append_evidence_fields:
  assumes "q < length (question_nodes t)"
  shows "evidence_nodes (append_evidence t q node) = evidence_nodes t @ [node]"
    and "question_nodes (append_evidence t q node)
           = (question_nodes t)[q := (qu t q)\<lparr>q_children := q_children (qu t q)
                                                   @ [length (evidence_nodes t)]\<rparr>]"
    and "qu (append_evidence t q node) q
           = (qu t q)\<lparr>q_children := q_children (qu t q) @ [length (evidence_nodes t)]\<rparr>"
    and "r < length (evidence_nodes t) \<Longrightarrow> ev (append_evidence t q node) r = ev t r"
  using assms by (simp_all add: append_evidence_def qu_def ev_def nth_append)

lemma upt_shift: "n # [Suc n ..< Suc (n + k)] = [n ..< Suc (n + k)]"
  by (simp add: upt_conv_Cons del: upt_Suc)

lemma create_evidence_nodes_result:
  assumes "q < length (question_nodes t)"
    and "q_parent (qu t q) < length (evidence_nodes t)"
    and "n \<noteq> 0"
    and "create_evidence_nodes cluster q mp ec n answers t = (None, t')"
  shows "\<exists>new. map_results (evidence_for cluster (belief_state (ev t (q_parent (qu t q)))) mp ec n q)
                  answers = Inr new
               \<and> evidence_nodes t' = evidence_nodes t @ new
               \<and> question_nodes t'
                   = (question_nodes t)
                       [q := (qu t q)\<lparr>q_children := q_children (qu t q)
                              @ [length (evidence_nodes t) ..<
                                 length (evidence_nodes t) + length answers]\<rparr>]"
  using assms
proof (induction answers arbitrary: t)
  case Nil
  then show ?case by (simp add: qu_def)
next
  case (Cons a remaining)
  let ?prior = "belief_state (ev t (q_parent (qu t q)))"
  from Cons.prems(4) Cons.prems(3)
  obtain lik posterior marginal where
    lik: "get_likelihoods_for_answer cluster a = Inr lik"
    and cp: "calculate_posterior ?prior lik mp (1 / real n) ec = Inr (posterior, marginal)"
    by (auto split: sum.splits prod.splits)
  let ?node = "\<lparr>answer = a, belief_state = posterior, marginal_likelihood = marginal,
                parent = Some q, children = []\<rparr>"
  let ?t1 = "append_evidence t q ?node"
  have rest: "create_evidence_nodes cluster q mp ec n remaining ?t1 = (None, t')"
    using Cons.prems(4) Cons.prems(3) lik cp by simp
  note f = append_evidence_fields [OF Cons.prems(1), where node = ?node]
  have q1: "q < length (question_nodes ?t1)" using Cons.prems(1) by (simp add: f)
  have qp: "q_parent (qu ?t1 q) = q_parent (qu t q)" by (simp add: f)
  have p1: "q_parent (qu ?t1 q) < length (evidence_nodes ?t1)"
    using Cons.prems(2) by (simp add: f)
  have prior1: "belief_state (ev ?t1 (q_parent (qu ?t1 q))) = ?prior"
    using Cons.prems(2) by (simp add: f)
  from Cons.IH [OF q1 p1 Cons.prems(3) rest]
  obtain new where new: "map_results (evidence_for cluster ?prior mp ec n q) remaining = Inr new"
    and ev': "evidence_nodes t' = evidence_nodes ?t1 @ new"
    and qu': "question_nodes t'
                = (question_nodes ?t1)
                    [q := (qu ?t1 q)\<lparr>q_children := q_children (qu ?t1 q)
                           @ [length (evidence_nodes ?t1) ..<
                              length (evidence_nodes ?t1) + length remaining]\<rparr>]"
    unfolding prior1 by blast
  have here: "evidence_for cluster ?prior mp ec n q a = Inr ?node"
    by (simp add: evidence_for_def lik cp)
  have "map_results (evidence_for cluster ?prior mp ec n q) (a # remaining) = Inr (?node # new)"
    by (simp add: here new)
  moreover have "evidence_nodes t' = evidence_nodes t @ (?node # new)"
    by (simp add: ev' f)
  moreover have "question_nodes t'
                   = (question_nodes t)
                       [q := (qu t q)\<lparr>q_children := q_children (qu t q)
                              @ [length (evidence_nodes t) ..<
                                 length (evidence_nodes t) + length (a # remaining)]\<rparr>]"
    by (simp add: qu' f upt_shift del: upt_Suc)
  ultimately show ?case by blast
qed

lemma create_evidence_nodes_no_answers:
  "create_evidence_nodes cluster q mp ec n [] t = (None, t)"
  by simp

lemma resolve_cluster_children:
  "resolve_cluster encode task cur st = (r, st1)
   \<Longrightarrow> q_children (qu (nodes st1) cur) = q_children (qu (nodes st) cur)"
  unfolding resolve_cluster_def
  by (auto simp: Let_def split: sum.splits prod.splits if_splits)

lemma expand_questions_children_calls:
  assumes "expand_questions_children encode task mp cur st = (err, st')"
    and "resolve_cluster encode task cur st = (r, st1)"
    and "q_children (qu (nodes st) cur) = []"
  shows "calls st' = calls st1"
  using assms
  by (auto simp: expand_questions_children_def split: sum.splits prod.splits)

subsection \<open>The run loop\<close>




lemmas engine_defs =
  resolve_cluster_def expand_questions_children_def get_cluster_def query_def add_item_def
  cluster_at_def get_answers_def get_hypotheses_def get_likelihoods_for_answer_def
  set_possible_answers_def set_cluster_likelihoods_def dict_update_def append_evidence_def
  add_question_nodes_def calculate_posterior_def dict_get_def dict_values_def keys_def
  ev_def qu_def is_terminal_def

subsection \<open>Reuse of clusters\<close>

text \<open>
  C6 as stated fails in two places.  With threshold \<open>1.0\<close> and an index that reports the
  distance \<open>2\<^sup>-\<^sup>2\<^sup>3\<close> between an embedding and its own copy, the first call for a question
  creates cluster 0 and the second call, with the same embedding, does not find it:
  the similarity \<open>1 - 2\<^sup>-\<^sup>2\<^sup>3\<close> is below the threshold, and the call creates cluster 1.  And
  the cluster a call registers is not empty: it holds the question with the count 1.
\<close>

theorem get_cluster_identical_calls_counterexample:
  "get_cluster (\<lambda>s. s) noisy_clustering ''Is it A?''
     = (Inr 0,
        \<lparr>index = \<lparr>space = noisy_space, items = [''Is it A?'']\<rparr>,
         clusters = [(0, \<lparr>questions = [(''Is it A?'', 1)], likelihoods = []\<rparr>)],
         threshold = 1\<rparr>)
   \<and> get_cluster (\<lambda>s. s)
         \<lparr>index = \<lparr>space = noisy_space, items = [''Is it A?'']\<rparr>,
          clusters = [(0, \<lparr>questions = [(''Is it A?'', 1)], likelihoods = []\<rparr>)],
          threshold = 1\<rparr> ''Is it A?''
     = (Inr 1,
        \<lparr>index = \<lparr>space = noisy_space, items = [''Is it A?'', ''Is it A?'']\<rparr>,
         clusters = [(0, \<lparr>questions = [(''Is it A?'', 1)], likelihoods = []\<rparr>),
                     (1, \<lparr>questions = [(''Is it A?'', 1)], likelihoods = []\<rparr>)],
         threshold = 1\<rparr>)"
  by (simp add: get_cluster_def query_def add_item_def noisy_clustering_def noisy_space_def
        Let_def)

text \<open>
  C6, amended.  With every cluster in step with the index: when the nearest neighbour of
  the embedding has similarity \<open>1 - d\<close> of at least the threshold, \<open>get_cluster\<close>
  returns the neighbour's cluster, with its likelihoods as they were and the count of
  the question text one higher; otherwise it stores the embedding under a fresh id and
  registers under it a cluster that holds the question with the count 1 and no
  likelihoods.  Two calls with equal embeddings return the same cluster when the
  similarity the index reports between the embedding and itself reaches the threshold
  (with threshold one: when that distance is zero).  The question phase requests
  likelihoods only for hypotheses the cluster has not cached, and it stores the
  likelihoods it is given in the cluster, under their hypotheses.
\<close>

theorem get_cluster_reuse_or_create:
  assumes sync: "in_sync qc"
  shows "(\<forall>n d. clusters qc \<noteq> [] \<longrightarrow> query (index qc) (encode q) = Inr ([n], [d])
             \<longrightarrow> threshold qc \<le> 1 - d \<longrightarrow>
            (\<exists>qc'. get_cluster encode qc q = (Inr n, qc')
                  \<and> index qc' = index qc
                  \<and> likelihoods (cluster_at qc' n) = likelihoods (cluster_at qc n)
                  \<and> dict_get (questions (cluster_at qc' n)) q 0
                      = dict_get (questions (cluster_at qc n)) q 0 + 1))
       \<and> (clusters qc = []
            \<or> (\<exists>n d. query (index qc) (encode q) = Inr ([n], [d]) \<and> \<not> threshold qc \<le> 1 - d)
           \<longrightarrow>
            (\<exists>qc'. get_cluster encode qc q = (Inr (length (items (index qc))), qc')
                  \<and> length (items (index qc)) \<notin> set (keys (clusters qc))
                  \<and> items (index qc') = items (index qc) @ [encode q]
                  \<and> clusters qc'
                      = clusters qc @ [(length (items (index qc)),
                                        \<lparr>questions = [(q, 1)], likelihoods = []\<rparr>)]))
       \<and> (threshold qc \<le> 1 - space (index qc) (encode q) (encode q)
             \<longrightarrow> encode q' = encode q \<longrightarrow>
            (\<exists>c qc1 qc2. get_cluster encode qc q = (Inr c, qc1)
                        \<and> get_cluster encode qc1 q' = (Inr c, qc2)))
       \<and> (\<forall>cid qc1 err st'.
             question_clustering st = qc \<longrightarrow> question (qu (nodes st) cur) = q
             \<longrightarrow> get_cluster encode qc q = (Inr cid, qc1)
             \<longrightarrow> expand_questions_children encode task mp cur st = (err, st')
             \<longrightarrow> (\<forall>qt answers hs.
                    GetLikelihoods qt answers hs \<in> set (drop (length (calls st)) (calls st'))
                    \<longrightarrow> set hs \<inter> set (get_hypotheses (cluster_at qc1 cid)) = {}))
       \<and> (\<forall>cid answers st1.
             question_clustering st = qc \<longrightarrow> question (qu (nodes st) cur) = q
             \<longrightarrow> resolve_cluster encode task cur st = (Inr (cid, answers), st1)
             \<longrightarrow> (\<exists>qc1. get_cluster encode qc q = (Inr cid, qc1)
                    \<and> ((question_clustering st1 = qc1 \<and> calls st1 = calls st)
                       \<or> (\<exists>hs new w.
                             calls st1 = calls st @ [GetLikelihoods q answers hs]
                             \<and> get_likelihoods task q answers hs (world st) = (Inr new, w)
                             \<and> likelihoods (cluster_at (question_clustering st1) cid)
                                 = dict_update (likelihoods (cluster_at qc1 cid)) new
                             \<and> set (keys new)
                                 \<subseteq> set (get_hypotheses (cluster_at (question_clustering st1) cid))))))"
proof (intro conjI allI impI)
  fix n d
  assume ne: "clusters qc \<noteq> []" and qy: "query (index qc) (encode q) = Inr ([n], [d])"
    and near: "threshold qc \<le> 1 - d"
  from ne sync have "items (index qc) \<noteq> []" by (simp add: in_sync_empty)
  from query_result [OF this, of "encode q"] qy have "n < length (items (index qc))" by auto
  with sync have "n \<in> set (keys (clusters qc))" by (simp add: in_sync_def)
  then obtain c where c: "map_of (clusters qc) n = Some c" by (auto dest: map_of_keys)
  let ?c' = "c\<lparr>questions := dict_set (questions c) q (dict_get (questions c) q 0 + 1)\<rparr>"
  have "get_cluster encode qc q = (Inr n, qc\<lparr>clusters := dict_set (clusters qc) n ?c'\<rparr>)"
    using ne qy near c by (rule get_cluster_reuse)
  moreover have "cluster_at qc n = c" by (simp add: cluster_at_def dict_get_def c)
  ultimately
  show "\<exists>qc'. get_cluster encode qc q = (Inr n, qc')
              \<and> index qc' = index qc
              \<and> likelihoods (cluster_at qc' n) = likelihoods (cluster_at qc n)
              \<and> dict_get (questions (cluster_at qc' n)) q 0
                  = dict_get (questions (cluster_at qc n)) q 0 + 1"
    by (simp add: cluster_at_dict_set dict_get_dict_set_same)
next
  assume far: "clusters qc = []
     \<or> (\<exists>n d. query (index qc) (encode q) = Inr ([n], [d]) \<and> \<not> threshold qc \<le> 1 - d)"
  let ?id = "length (items (index qc))"
  let ?new = "\<lparr>questions = [(q, 1)], likelihoods = []\<rparr>"
  let ?qc' = "qc\<lparr>index := (index qc)\<lparr>items := items (index qc) @ [encode q]\<rparr>,
                 clusters := dict_set (clusters qc) ?id ?new\<rparr>"
  have fresh: "?id \<notin> set (keys (clusters qc))" using sync by (rule in_sync_fresh)
  have "get_cluster encode qc q = (Inr ?id, ?qc')"
  proof (cases "clusters qc = []")
    case True
    then show ?thesis by (rule get_cluster_create_empty)
  next
    case False
    with far obtain n d where "query (index qc) (encode q) = Inr ([n], [d])"
      "\<not> threshold qc \<le> 1 - d" by blast
    with False show ?thesis by (rule get_cluster_create_far)
  qed
  with fresh
  show "\<exists>qc'. get_cluster encode qc q = (Inr ?id, qc')
              \<and> ?id \<notin> set (keys (clusters qc))
              \<and> items (index qc') = items (index qc) @ [encode q]
              \<and> clusters qc' = clusters qc @ [(?id, ?new)]"
    by (simp add: dict_set_fresh)
next
  assume "threshold qc \<le> 1 - space (index qc) (encode q) (encode q)" "encode q' = encode q"
  with sync
  show "\<exists>c qc1 qc2. get_cluster encode qc q = (Inr c, qc1)
                    \<and> get_cluster encode qc1 q' = (Inr c, qc2)"
    by (rule get_cluster_twice)
next
  fix cid qc1 err st' qt answers hs
  assume qc: "question_clustering st = qc" and q: "question (qu (nodes st) cur) = q"
    and gc: "get_cluster encode qc q = (Inr cid, qc1)"
    and ex: "expand_questions_children encode task mp cur st = (err, st')"
    and req: "GetLikelihoods qt answers hs \<in> set (drop (length (calls st)) (calls st'))"
  show "set hs \<inter> set (get_hypotheses (cluster_at qc1 cid)) = {}"
  proof (cases "q_children (qu (nodes st) cur) = []")
    case False
    with ex have "st' = st" by (simp add: expand_questions_children_def)
    with req show ?thesis by simp
  next
    case True
    obtain r st1 where res: "resolve_cluster encode task cur st = (r, st1)"
      by (cases "resolve_cluster encode task cur st")
    from expand_questions_children_calls [OF ex res True]
    have same: "calls st' = calls st1" .
    from gc qc q
    have gc': "get_cluster encode (question_clustering st) (question (qu (nodes st) cur))
                 = (Inr cid, qc1)" by simp
    from resolve_cluster_requests [OF res gc']
    consider "calls st1 = calls st"
      | answers' hs' where
          "calls st1 = calls st @ [GetLikelihoods (question (qu (nodes st) cur)) answers' hs']"
          "set hs' = set (keys (belief_state (ev (nodes st) (q_parent (qu (nodes st) cur)))))
                     - set (get_hypotheses (cluster_at qc1 cid))"
      by blast
    then show ?thesis
    proof cases
      case 1
      with req same show ?thesis by simp
    next
      case 2
      from req have "hs = hs'" by (simp add: same 2(1))
      with 2(2) show ?thesis by blast
    qed
  qed
next
  fix cid answers st1
  assume qc: "question_clustering st = qc" and q: "question (qu (nodes st) cur) = q"
    and res: "resolve_cluster encode task cur st = (Inr (cid, answers), st1)"
  from resolve_cluster_stores [OF res] qc q
  obtain qc1 where gc: "get_cluster encode qc q = (Inr cid, qc1)"
    and alt: "(question_clustering st1 = qc1 \<and> calls st1 = calls st)
              \<or> (\<exists>hs new w.
                    calls st1 = calls st @ [GetLikelihoods q answers hs]
                    \<and> get_likelihoods task q answers hs (world st) = (Inr new, w)
                    \<and> likelihoods (cluster_at (question_clustering st1) cid)
                        = dict_update (likelihoods (cluster_at qc1 cid)) new)"
    by auto
  have "set (keys new) \<subseteq> set (get_hypotheses (cluster_at (question_clustering st1) cid))"
    if "likelihoods (cluster_at (question_clustering st1) cid)
          = dict_update (likelihoods (cluster_at qc1 cid)) new" for new
    using that by (simp add: get_hypotheses_def keys_dict_update)
  with gc alt
  show "\<exists>qc1. get_cluster encode qc q = (Inr cid, qc1)
             \<and> ((question_clustering st1 = qc1 \<and> calls st1 = calls st)
                \<or> (\<exists>hs new w.
                      calls st1 = calls st @ [GetLikelihoods q answers hs]
                      \<and> get_likelihoods task q answers hs (world st) = (Inr new, w)
                      \<and> likelihoods (cluster_at (question_clustering st1) cid)
                          = dict_update (likelihoods (cluster_at qc1 cid)) new
                      \<and> set (keys new)
                          \<subseteq> set (get_hypotheses (cluster_at (question_clustering st1) cid))))"
    by blast
qed

lemmas example_defs =
  example_limit_def example_task_def empty_clustering_def example_space_def
  initial_run_state_def engine_defs str_evidence_def str_question_def Let_def loop_body_def
  max_by_def immediate_reward_def specificity_penalty_def information_gain_def
  shannon_entropy_def

text \<open>
  In an empty clustering whose index finds a vector at distance zero from itself, the
  first call for a question creates cluster 0 and the second call finds it again and
  counts the question twice.  In the cluster that has the likelihoods of \<open>A\<close> only, the
  question phase requests those of \<open>B\<close> and not those of \<open>A\<close>, and the cluster has
  both afterwards.  Of two nodes with the same question, expanded one after the other,
  only the first requests likelihoods.
\<close>

theorem get_cluster_reuse_or_create_witness:
  "get_cluster (\<lambda>s. s) empty_clustering ''Is it A?''
     = (Inr 0,
        \<lparr>index = \<lparr>space = example_space, items = [''Is it A?'']\<rparr>,
         clusters = [(0, \<lparr>questions = [(''Is it A?'', 1)], likelihoods = []\<rparr>)],
         threshold = 1\<rparr>)
   \<and> get_cluster (\<lambda>s. s)
         \<lparr>index = \<lparr>space = example_space, items = [''Is it A?'']\<rparr>,
          clusters = [(0, \<lparr>questions = [(''Is it A?'', 1)], likelihoods = []\<rparr>)],
          threshold = 1\<rparr> ''Is it A?''
     = (Inr 0,
        \<lparr>index = \<lparr>space = example_space, items = [''Is it A?'']\<rparr>,
         clusters = [(0, \<lparr>questions = [(''Is it A?'', 2)], likelihoods = []\<rparr>)],
         threshold = 1\<rparr>)
   \<and> (\<exists>c qc1 qc2. get_cluster (\<lambda>s. s) empty_clustering ''Is it A?'' = (Inr c, qc1)
                     \<and> get_cluster (\<lambda>s. s) qc1 ''Is it A?'' = (Inr c, qc2))
   \<and> calls (snd (expand_questions_children (\<lambda>s. s) example_task (1 / 25000) 0 unexpanded_state))
       = [GetLikelihoods ''Is it A?'' [''Yes'', ''No''] [''B'']]
   \<and> \<not> (\<exists>qt answers hs.
            GetLikelihoods qt answers hs
              \<in> set (calls (snd (expand_questions_children (\<lambda>s. s) example_task (1 / 25000) 0
                                   unexpanded_state)))
            \<and> ''A'' \<in> set hs)
   \<and> likelihoods (cluster_at (question_clustering
         (snd (expand_questions_children (\<lambda>s. s) example_task (1 / 25000) 0 unexpanded_state))) 0)
       = [(''A'', [(''Yes'', 3 / 4), (''No'', 1 / 4)]), (''B'', [(''Yes'', 1 / 4), (''No'', 3 / 4)])]
   \<and> calls (snd (expand_questions_children (\<lambda>s. s) example_task (1 / 25000) 1
         (snd (expand_questions_children (\<lambda>s. s) example_task (1 / 25000) 0 twice_asked_state))))
       = [GetLikelihoods ''Is it A?'' [''Yes'', ''No''] [''A'', ''B'']]
   \<and> map (\<lambda>q. q_children (qu (nodes (snd (expand_questions_children (\<lambda>s. s) example_task
         (1 / 25000) 1
         (snd (expand_questions_children (\<lambda>s. s) example_task (1 / 25000) 0 twice_asked_state)))))
           q)) [0, 1]
       = [[1, 2], [3, 4]]"
proof -
  have sync0: "in_sync empty_clustering"
    by (simp add: in_sync_def empty_clustering_def keys_def)
  have twice: "\<exists>c qc1 qc2. get_cluster (\<lambda>s. s) empty_clustering ''Is it A?'' = (Inr c, qc1)
                             \<and> get_cluster (\<lambda>s. s) qc1 ''Is it A?'' = (Inr c, qc2)"
    using get_cluster_reuse_or_create
            [OF sync0, where encode = "\<lambda>s. s" and q = "''Is it A?''" and q' = "''Is it A?''"
               and st = unexpanded_state and cur = 0 and task = example_task and mp = 0]
    by (simp add: empty_clustering_def example_space_def)
  let ?qc = "question_clustering unexpanded_state"
  let ?st' = "snd (expand_questions_children (\<lambda>s. s) example_task (1 / 25000) 0 unexpanded_state)"
  have sync1: "in_sync ?qc"
    by (auto simp: in_sync_def unexpanded_state_def keys_def)
  have gc: "get_cluster (\<lambda>s. s) ?qc ''Is it A?''
              = (Inr 0, ?qc\<lparr>clusters :=
                   [(0, \<lparr>questions = [(''Is it A?'', 2)],
                         likelihoods = [(''A'', [(''Yes'', 3 / 4), (''No'', 1 / 4)])]\<rparr>)]\<rparr>)"
    by (simp add: unexpanded_state_def example_defs)
  have cached: "get_hypotheses (cluster_at
                  (?qc\<lparr>clusters :=
                     [(0, \<lparr>questions = [(''Is it A?'', 2)],
                           likelihoods = [(''A'', [(''Yes'', 3 / 4), (''No'', 1 / 4)])]\<rparr>)]\<rparr>) 0)
                = [''A'']"
    by (simp add: example_defs)
  have qtext: "question (qu (nodes unexpanded_state) 0) = ''Is it A?''"
    by (simp add: unexpanded_state_def unexpanded_tree_def qu_def)
  have ex: "expand_questions_children (\<lambda>s. s) example_task (1 / 25000) 0 unexpanded_state
              = (fst (expand_questions_children (\<lambda>s. s) example_task (1 / 25000) 0
                        unexpanded_state), ?st')"
    by simp
  note part4 = get_cluster_reuse_or_create
            [OF sync1, where encode = "\<lambda>s. s" and q = "''Is it A?''" and q' = "''Is it A?''"
               and st = unexpanded_state and cur = 0 and task = example_task and mp = "1 / 25000",
             THEN conjunct2, THEN conjunct2, THEN conjunct2, THEN conjunct1, rule_format,
             OF refl qtext gc ex]
  have no_calls: "calls unexpanded_state = []" by (simp add: unexpanded_state_def)
  have none: "\<not> (\<exists>qt answers hs. GetLikelihoods qt answers hs \<in> set (calls ?st') \<and> ''A'' \<in> set hs)"
  proof
    assume "\<exists>qt answers hs. GetLikelihoods qt answers hs \<in> set (calls ?st') \<and> ''A'' \<in> set hs"
    then obtain qt answers hs where mem: "GetLikelihoods qt answers hs \<in> set (calls ?st')"
      and a: "''A'' \<in> set hs" by blast
    from mem have "GetLikelihoods qt answers hs
                     \<in> set (drop (length (calls unexpanded_state)) (calls ?st'))"
      by (simp add: no_calls)
    from part4 [OF this] have "set hs \<inter> set [''A''] = {}" by (simp only: cached)
    with a show False by simp
  qed
  have calls: "calls ?st' = [GetLikelihoods ''Is it A?'' [''Yes'', ''No''] [''B'']]"
    by (simp add: example_defs unexpanded_state_def unexpanded_tree_def)
  have first: "get_cluster (\<lambda>s. s) empty_clustering ''Is it A?''
     = (Inr 0,
        \<lparr>index = \<lparr>space = example_space, items = [''Is it A?'']\<rparr>,
         clusters = [(0, \<lparr>questions = [(''Is it A?'', 1)], likelihoods = []\<rparr>)],
         threshold = 1\<rparr>)"
    by (simp add: example_defs)
  have second: "get_cluster (\<lambda>s. s)
         \<lparr>index = \<lparr>space = example_space, items = [''Is it A?'']\<rparr>,
          clusters = [(0, \<lparr>questions = [(''Is it A?'', 1)], likelihoods = []\<rparr>)],
          threshold = 1\<rparr> ''Is it A?''
     = (Inr 0,
        \<lparr>index = \<lparr>space = example_space, items = [''Is it A?'']\<rparr>,
         clusters = [(0, \<lparr>questions = [(''Is it A?'', 2)], likelihoods = []\<rparr>)],
         threshold = 1\<rparr>)"
    by (simp add: example_defs)
  have stored: "likelihoods (cluster_at (question_clustering ?st') 0)
       = [(''A'', [(''Yes'', 3 / 4), (''No'', 1 / 4)]), (''B'', [(''Yes'', 1 / 4), (''No'', 3 / 4)])]"
    by (simp add: example_defs unexpanded_state_def unexpanded_tree_def)
  let ?st2 = "snd (expand_questions_children (\<lambda>s. s) example_task (1 / 25000) 1
         (snd (expand_questions_children (\<lambda>s. s) example_task (1 / 25000) 0 twice_asked_state)))"
  have once: "calls ?st2 = [GetLikelihoods ''Is it A?'' [''Yes'', ''No''] [''A'', ''B'']]"
    by (simp add: example_defs twice_asked_state_def)
  have both: "map (\<lambda>q. q_children (qu (nodes ?st2) q)) [0, 1] = [[1, 2], [3, 4]]"
    by (simp add: example_defs twice_asked_state_def)
  from first second twice calls none stored once both show ?thesis by blast
qed

subsection \<open>Expansion keeps the belief states\<close>













subsection \<open>A run that fails\<close>



subsection \<open>The uniform likelihood of the question phase\<close>

text \<open>
  C10 as stated fails in its second half.  The question of \<open>no_answers_state\<close> has no
  possible answers and there is no cluster that could cache any; its expansion raises
  nothing (no division by zero) and creates no children.
\<close>

theorem expand_questions_without_answers_counterexample:
  "clusters (question_clustering no_answers_state) = []
   \<and> possible_answers (qu (nodes no_answers_state) 0) = []
   \<and> q_children (qu (nodes no_answers_state) 0) = []
   \<and> fst (expand_questions example_limit (\<lambda>s. s) example_task (1 / 25000) 0 0 no_answers_state)
       = None
   \<and> q_children (qu (nodes (snd (expand_questions example_limit (\<lambda>s. s) example_task
                                     (1 / 25000) 0 0 no_answers_state))) 0) = []"
  by (simp add: example_defs no_answers_state_def)

text \<open>
  C10, amended.  When the evidence children of a question node are first created, after
  the cluster resolved the answers, each child is the node of \<open>evidence_for\<close>: its belief
  state and marginal come from \<open>calculate_posterior\<close> with the uniform likelihood one
  divided by the number of resolved answers.  A resolved answer set that is empty is
  not an error: the loop runs no iteration, nothing is divided, and the expansion of
  the children returns without exception and without children.
\<close>

theorem expand_questions_children_uniform_likelihood:
  assumes first: "q_children (qu (nodes st) cur) = []"
    and resolved: "resolve_cluster encode task cur st = (Inr (cid, answers), st1)"
    and node: "cur < length (question_nodes (nodes st1))"
    and parent_node: "q_parent (qu (nodes st1) cur) < length (evidence_nodes (nodes st1))"
  shows "(answers = [] \<longrightarrow>
            expand_questions_children encode task min_probability cur st = (None, st1))
         \<and> (\<forall>st'. expand_questions_children encode task min_probability cur st = (None, st') \<longrightarrow>
               (\<exists>new. map_results
                         (evidence_for (cluster_at (question_clustering st1) cid)
                            (belief_state (ev (nodes st1) (q_parent (qu (nodes st1) cur))))
                            min_probability (estimator_confidence task) (length answers) cur)
                         answers = Inr new
                     \<and> evidence_nodes (nodes st') = evidence_nodes (nodes st1) @ new
                     \<and> q_children (qu (nodes st') cur)
                         = [length (evidence_nodes (nodes st1)) ..<
                            length (evidence_nodes (nodes st1)) + length answers]))"
proof (intro conjI allI impI)
  assume "answers = []"
  then show "expand_questions_children encode task min_probability cur st = (None, st1)"
    using first resolved by (simp add: expand_questions_children_def)
next
  fix st'
  assume ex: "expand_questions_children encode task min_probability cur st = (None, st')"
  let ?cluster = "cluster_at (question_clustering st1) cid"
  let ?prior = "belief_state (ev (nodes st1) (q_parent (qu (nodes st1) cur)))"
  let ?n = "length (evidence_nodes (nodes st1))"
  have none1: "q_children (qu (nodes st1) cur) = []"
    using resolve_cluster_children [OF resolved] first by simp
  obtain err t' where cr: "create_evidence_nodes ?cluster cur min_probability
      (estimator_confidence task) (length answers) answers (nodes st1) = (err, t')"
    by (cases "create_evidence_nodes ?cluster cur min_probability
      (estimator_confidence task) (length answers) answers (nodes st1)")
  from ex first resolved cr have err: "err = None" and st': "st' = st1\<lparr>nodes := t'\<rparr>"
    by (simp_all add: expand_questions_children_def)
  show "\<exists>new. map_results (evidence_for ?cluster ?prior min_probability
                              (estimator_confidence task) (length answers) cur) answers = Inr new
             \<and> evidence_nodes (nodes st') = evidence_nodes (nodes st1) @ new
             \<and> q_children (qu (nodes st') cur) = [?n ..< ?n + length answers]"
  proof (cases "answers = []")
    case True
    with cr st' none1 show ?thesis by simp
  next
    case False
    then have n: "length answers \<noteq> 0" by simp
    from create_evidence_nodes_result [OF node parent_node n cr [unfolded err]]
    obtain new where new: "map_results (evidence_for ?cluster ?prior min_probability
                              (estimator_confidence task) (length answers) cur) answers = Inr new"
      and evs: "evidence_nodes t' = evidence_nodes (nodes st1) @ new"
      and qus: "question_nodes t'
                  = (question_nodes (nodes st1))
                      [cur := (qu (nodes st1) cur)\<lparr>q_children := q_children (qu (nodes st1) cur)
                              @ [?n ..< ?n + length answers]\<rparr>]"
      by blast
    have "q_children (qu t' cur) = [?n ..< ?n + length answers]"
      using node by (simp add: qu_def qus none1 [unfolded qu_def])
    with new evs st' show ?thesis by simp
  qed
qed

theorem expand_questions_children_uniform_likelihood_witness:
  "resolve_cluster (\<lambda>s. s) (example_task\<lparr>estimator_confidence := 0.7\<rparr>) 0 unexpanded_state
     = (Inr (0, [''Yes'', ''No'']),
        snd (resolve_cluster (\<lambda>s. s) (example_task\<lparr>estimator_confidence := 0.7\<rparr>) 0 unexpanded_state))
   \<and> fst (expand_questions_children (\<lambda>s. s) (example_task\<lparr>estimator_confidence := 0.7\<rparr>)
            (1 / 25000) 0 unexpanded_state) = None
   \<and> evidence_nodes (nodes (snd (expand_questions_children (\<lambda>s. s)
         (example_task\<lparr>estimator_confidence := 0.7\<rparr>) (1 / 25000) 0 unexpanded_state)))
       = evidence_nodes unexpanded_tree
         @ [\<lparr>answer = ''Yes'', belief_state = [(''A'', 27 / 40), (''B'', 13 / 40)],
             marginal_likelihood = 1 / 2, parent = Some 0, children = []\<rparr>,
            \<lparr>answer = ''No'', belief_state = [(''A'', 13 / 40), (''B'', 27 / 40)],
             marginal_likelihood = 1 / 2, parent = Some 0, children = []\<rparr>]
   \<and> calculate_posterior [(''A'', 1 / 2), (''B'', 1 / 2)] [(''A'', 3 / 4), (''B'', 1 / 4)]
         (1 / 25000) (1 / 2) 0.7
       = Inr ([(''A'', 27 / 40), (''B'', 13 / 40)], 1 / 2)"
proof -
  let ?task = "example_task\<lparr>estimator_confidence := 0.7\<rparr>"
  define st1 where "st1 = snd (resolve_cluster (\<lambda>s. s) ?task 0 unexpanded_state)"
  define st' where "st' = snd (expand_questions_children (\<lambda>s. s) ?task (1 / 25000) 0 unexpanded_state)"
  have first: "q_children (qu (nodes unexpanded_state) 0) = []"
    by (simp add: unexpanded_state_def unexpanded_tree_def qu_def)
  have resolved: "resolve_cluster (\<lambda>s. s) ?task 0 unexpanded_state = (Inr (0, [''Yes'', ''No'']), st1)"
    unfolding st1_def by (simp add: example_defs unexpanded_state_def unexpanded_tree_def)
  have node: "0 < length (question_nodes (nodes st1))"
    unfolding st1_def by (simp add: example_defs unexpanded_state_def unexpanded_tree_def)
  have parent_node: "q_parent (qu (nodes st1) 0) < length (evidence_nodes (nodes st1))"
    unfolding st1_def by (simp add: example_defs unexpanded_state_def unexpanded_tree_def)
  have ex: "expand_questions_children (\<lambda>s. s) ?task (1 / 25000) 0 unexpanded_state = (None, st')"
    unfolding st'_def by (simp add: example_defs unexpanded_state_def unexpanded_tree_def)
  from expand_questions_children_uniform_likelihood
         [OF first resolved node parent_node, where min_probability = "1 / 25000",
          THEN conjunct2, rule_format, OF ex]
  obtain new where
    new: "map_results (evidence_for (cluster_at (question_clustering st1) 0)
            (belief_state (ev (nodes st1) (q_parent (qu (nodes st1) 0))))
            (1 / 25000) (estimator_confidence ?task) (length [''Yes'', ''No'']) 0)
            [''Yes'', ''No''] = Inr new"
    and evs: "evidence_nodes (nodes st') = evidence_nodes (nodes st1) @ new"
    by blast
  have "map_results (evidence_for (cluster_at (question_clustering st1) 0)
            (belief_state (ev (nodes st1) (q_parent (qu (nodes st1) 0))))
            (1 / 25000) (estimator_confidence ?task) (length [''Yes'', ''No'']) 0)
            [''Yes'', ''No'']
        = Inr [\<lparr>answer = ''Yes'', belief_state = [(''A'', 27 / 40), (''B'', 13 / 40)],
                marginal_likelihood = 1 / 2, parent = Some 0, children = []\<rparr>,
               \<lparr>answer = ''No'', belief_state = [(''A'', 13 / 40), (''B'', 27 / 40)],
                marginal_likelihood = 1 / 2, parent = Some 0, children = []\<rparr>]"
    unfolding st1_def
    by (simp add: example_defs evidence_for_def unexpanded_state_def unexpanded_tree_def)
  with new have new_eq: "new = [\<lparr>answer = ''Yes'', belief_state = [(''A'', 27 / 40), (''B'', 13 / 40)],
                marginal_likelihood = 1 / 2, parent = Some 0, children = []\<rparr>,
               \<lparr>answer = ''No'', belief_state = [(''A'', 13 / 40), (''B'', 27 / 40)],
                marginal_likelihood = 1 / 2, parent = Some 0, children = []\<rparr>]"
    by simp
  have old: "evidence_nodes (nodes st1) = evidence_nodes unexpanded_tree"
    unfolding st1_def by (simp add: example_defs unexpanded_state_def unexpanded_tree_def)
  have cp: "calculate_posterior [(''A'', 1 / 2), (''B'', 1 / 2)] [(''A'', 3 / 4), (''B'', 1 / 4)]
         (1 / 25000) (1 / 2) 0.7
       = Inr ([(''A'', 27 / 40), (''B'', 13 / 40)], 1 / 2)"
    by (simp add: calculate_posterior_def dict_get_def dict_values_def)
  have raised: "fst (expand_questions_children (\<lambda>s. s) ?task (1 / 25000) 0 unexpanded_state) = None"
    using ex by (metis fst_conv)
  from resolved raised evs new_eq old cp show ?thesis
    unfolding st1_def st'_def by simp
qed

end
